theory Spec2Isabelle
  imports Complex_Main "HOL-Library.Word"
begin

section \<open>Numbers of the C++ program\<close>

text \<open>
  The two ROOT macros of the repository (the overlay plotter and the per-run plotter)
  compute with \<^verbatim>\<open>int\<close> and \<^verbatim>\<open>double\<close>. An \<^verbatim>\<open>int\<close> is a 32-bit word read in two's
  complement (\<open>sint\<close>); its multiplication wraps around, which is what the hardware does on
  a signed overflow (the C++ standard leaves the overflow undefined).

  A \<^verbatim>\<open>double\<close> (and the \<^verbatim>\<open>Float_t\<close> of a bin of a \<^verbatim>\<open>TH1F\<close>) is modelled without rounding:
  a finite value is a real number, and the values that are not finite (the infinities and
  NaN) are one value \<open>NonFinite\<close>. A product with a non-finite factor is never finite
  again, and a division of \<open>1.0\<close> by zero is the infinity. The values that the macros only
  read or compare (the bin centres, the cut value, the number of entries) are finite and
  are real numbers.
\<close>

type_synonym c_int = "32 word"

datatype double = Num real | NonFinite

fun dmul :: "double \<Rightarrow> double \<Rightarrow> double" where
  "dmul (Num a) (Num b) = Num (a * b)"
| "dmul _ _ = NonFinite"

definition one_over_int :: "c_int \<Rightarrow> double" where
  \<comment> \<open>\<^verbatim>\<open>1.0 / i\<close> for an \<^verbatim>\<open>int i\<close>: \<open>i\<close> converts to \<^verbatim>\<open>double\<close> exactly.\<close>
  "one_over_int i = (if sint i = 0 then NonFinite else Num (1 / real_of_int (sint i)))"

definition double_to_int :: "real \<Rightarrow> c_int" where
  \<comment> \<open>The conversion of \<^verbatim>\<open>int nEvents = h->GetEntries()\<close>: towards zero. A value outside the
      range of \<^verbatim>\<open>int\<close> is undefined in C++; it is given the result of the conversion
      instruction of x86-64, the smallest \<^verbatim>\<open>int\<close>.\<close>
  "double_to_int x =
    (let n = (if 0 \<le> x then \<lfloor>x\<rfloor> else \<lceil>x\<rceil>)
     in if - 2147483648 \<le> n \<and> n \<le> 2147483647 then word_of_int n else - 2147483648)"

section \<open>The histogram and the histogram store (ROOT, outside the repository)\<close>

text \<open>
  Modelled from the spec: ROOT's histogram class \<^verbatim>\<open>TH1F\<close> is not part of the repository.
  The model keeps what the two macros use of it, as the specification's histogram
  contract lists it: the bin count, the centre and the content of each bin (bin \<open>0\<close> is
  the underflow, bins \<open>1\<close> to \<open>GetNbinsX\<close> are the bins of the axis, bin \<open>GetNbinsX + 1\<close> is
  the overflow), the number of entries, scaling by a constant, and the attributes the
  styling calls set.
\<close>

datatype EColor =
  kWhite | kBlack | kGray | kRed | kBlue | kMagenta | kCyan | kOrange | kAzure | kViolet | kPink

text \<open>A colour index \<^verbatim>\<open>kOrange+7\<close> is the pair \<open>(kOrange, 7)\<close>.\<close>

type_synonym Color_t = "EColor \<times> int"

record TH1F =
  GetNbinsX :: nat
  GetBinCenter :: "nat \<Rightarrow> real"
  GetBinContent :: "nat \<Rightarrow> double"
  GetEntries :: real
  Stats :: bool
  LineWidth :: nat
  LineColor :: Color_t
  MarkerStyle :: nat
  MarkerSize :: real
  MarkerColor :: Color_t
  Title :: string
  XaxisTitle :: string
  YaxisTitle :: string
  XaxisTitleFont :: nat
  YaxisTitleFont :: nat
  YaxisTitleOffset :: real

definition SetBinContent :: "TH1F \<Rightarrow> nat \<Rightarrow> double \<Rightarrow> TH1F" where
  \<comment> \<open>Modelled from the spec: \<^verbatim>\<open>h->SetBinContent(bin, v)\<close> of ROOT writes the content of one bin.\<close>
  "SetBinContent h bin v = h\<lparr>GetBinContent := (GetBinContent h)(bin := v)\<rparr>"

definition Scale :: "TH1F \<Rightarrow> double \<Rightarrow> TH1F" where
  \<comment> \<open>Modelled from the spec: \<^verbatim>\<open>h->Scale(c)\<close> of ROOT is the contract's scale-by-constant
      operation; every bin content is multiplied by the constant.\<close>
  "Scale h c = h\<lparr>GetBinContent := (\<lambda>bin. dmul c (GetBinContent h bin))\<rparr>"

text \<open>
  Modelled from the spec: ROOT's \<^verbatim>\<open>TFile\<close> is the specification's histogram store lookup.
  \<^verbatim>\<open>TFile::Open\<close> gives no file (a null pointer) or a file, which may be flagged a
  zombie; \<^verbatim>\<open>Get\<close> gives the histogram stored under a name, or none.
\<close>

record TFile =
  IsZombie :: bool
  Get :: "string \<rightharpoonup> TH1F"

type_synonym TFile_Open = "string \<rightharpoonup> TFile"

section \<open>The overlay plotter\<close>

record RunData =
  color :: Color_t
  sebCount :: c_int

definition OverlayPlotter_runDataMap :: "(string \<times> RunData) list" where
  "OverlayPlotter_runDataMap =
    [(''21813'', \<lparr>color = (kBlue, 0), sebCount = 7\<rparr>),
     (''21796'', \<lparr>color = (kOrange, 7), sebCount = 8\<rparr>),
     (''21615'', \<lparr>color = (kBlack, 0), sebCount = 8\<rparr>),
     (''21599'', \<lparr>color = (kBlue, 3), sebCount = 8\<rparr>),
     (''21598'', \<lparr>color = (kRed, 0), sebCount = 8\<rparr>),
     (''21891'', \<lparr>color = (kCyan, 3), sebCount = 7\<rparr>),
     (''22979'', \<lparr>color = (kMagenta, 0), sebCount = 5\<rparr>),
     (''22950'', \<lparr>color = (kViolet, 1), sebCount = 5\<rparr>),
     (''22949'', \<lparr>color = (kMagenta, 2), sebCount = 5\<rparr>),
     (''22951'', \<lparr>color = (kAzure, 4), sebCount = 5\<rparr>),
     (''22982'', \<lparr>color = (kAzure, 2), sebCount = 5\<rparr>),
     (''21518'', \<lparr>color = (kPink, - 3), sebCount = 8\<rparr>),
     (''21520'', \<lparr>color = (kOrange, 1), sebCount = 8\<rparr>),
     (''21889'', \<lparr>color = (kGray, 1), sebCount = 7\<rparr>)]"

definition runDataMap_at :: "string \<Rightarrow> RunData" where
  \<comment> \<open>\<^verbatim>\<open>runDataMap_[run]\<close>: a key that is not in the map gets the value-initialised entry.\<close>
  "runDataMap_at run =
    (case map_of OverlayPlotter_runDataMap run of
       Some d \<Rightarrow> d
     | None \<Rightarrow> \<lparr>color = (kWhite, 0), sebCount = 0\<rparr>)"

text \<open>What is drawn on the canvas, in drawing order, and the lines written to the console.\<close>

datatype primitive =
  DrawnHist TH1F string
| DrawnLegend "(TH1F \<times> string \<times> string) list"
| DrawnLatex real real string

datatype message =
  ProcessingRun string
| FileIssue string
| AccessingHistogram string
| HistogramIssue string
| ColorAssigned Color_t
| SEBCountForRun c_int
| CompletedRun string
| StartPlotting string
| ProcessingRunSEB string c_int
| NormalizedUsing c_int c_int
| NoNormalization
| ApplyingEnergyCut
| EnergyCutApplied real
| NoEnergyCut string
| SavedPlot string string string
| CompletedPlotting string
| ApplyCutPrompt
| InvalidResponse
| WhichHistograms
| MenuItem nat string
| InvalidChoice c_int
| EnterEnergyCut
| InvalidEnergy

text \<open>
  What both macros write outside their objects: the lines on the console and the image
  files saved (\<^verbatim>\<open>SaveAs\<close>: the path and what the canvas held). Both classes start with the
  member \<^verbatim>\<open>normalize_\<close>. A member \<^verbatim>\<open>name_\<close> of the source is the field \<open>name_'\<close> here, since
  an Isabelle name cannot end with an underscore.
\<close>

record Plotter =
  cout :: "message list"
  SavedAs :: "(string \<times> primitive list) list"
  normalize_' :: bool

text \<open>
  \<open>runNumbers_'\<close> is filled by the constructor from an iteration over the
  \<^verbatim>\<open>std::unordered_map\<close> of runs. The order of that iteration is the library's, so the
  constructor takes it as \<open>iteration\<close>: the entries of the map in the order in which the
  library enumerates them.
\<close>

record OverlayPlotter = Plotter +
  cOverlay_' :: "primitive list"
  cOverlay_Title :: string
  leg_' :: "(TH1F \<times> string \<times> string) list"
  runNumbers_' :: "string list"

definition OverlayPlotter_new :: "bool \<Rightarrow> (string \<times> RunData) list \<Rightarrow> OverlayPlotter" where
  "OverlayPlotter_new normalize' iteration =
    \<lparr>cout = [], SavedAs = [], normalize_' = normalize',
     cOverlay_' = [], cOverlay_Title = [], leg_' = [],
     runNumbers_' = fold (\<lambda>entry runs. runs @ [fst entry]) iteration []\<rparr>"

definition ResetCanvas :: "OverlayPlotter \<Rightarrow> OverlayPlotter" where
  "ResetCanvas p = p\<lparr>cOverlay_' := [], leg_' := []\<rparr>"

definition OverlayPlotter_Normalize :: "TH1F \<Rightarrow> c_int \<Rightarrow> c_int \<Rightarrow> TH1F" where
  "OverlayPlotter_Normalize h nEvents nSEBs =
    (if 0 < sint nEvents \<and> 0 < sint nSEBs
     then Scale h (one_over_int (nEvents * nSEBs))
     else h)"

definition qa_root :: "string \<Rightarrow> string" where
  "qa_root run = ''/Users/patsfan753/Desktop/QA_EMCal/rootOutput/'' @ run @ ''/qa.root''"

text \<open>
  \<^verbatim>\<open>OverlayRun\<close> is called for the elements of \<open>runNumbers_'\<close> only, so the list is not
  empty where the function reads its first element (\<^verbatim>\<open>*runNumbers_.begin()\<close>). What is
  pure presentation of the canvas and the legend (size, log scale, grid, layout) is left
  out.
\<close>

definition OverlayRun ::
  "TFile_Open \<Rightarrow> string \<Rightarrow> string \<Rightarrow> string \<Rightarrow> string \<Rightarrow> string \<Rightarrow>
   OverlayPlotter \<Rightarrow> OverlayPlotter" where
  "OverlayRun Open run histName title xAxisTitle yAxisTitle p0 =
    (let filePath = qa_root run;
         p1 = p0\<lparr>cout := cout p0 @ [ProcessingRun run]\<rparr>
     in case Open filePath of
          None \<Rightarrow> p1\<lparr>cout := cout p1 @ [FileIssue run]\<rparr>
        | Some file \<Rightarrow>
            if IsZombie file then p1\<lparr>cout := cout p1 @ [FileIssue run]\<rparr>
            else
              let p2 = p1\<lparr>cout := cout p1 @ [AccessingHistogram histName]\<rparr>
              in (case (Get file histName, Get file ''hNClusters'') of
                   (Some hist, Some hNClusters) \<Rightarrow>
                     let color' = color (runDataMap_at run);
                         p3 = p2\<lparr>cout := cout p2 @
                                [ColorAssigned color', SEBCountForRun (sebCount (runDataMap_at run))]\<rparr>;
                         h1 = hist\<lparr>Stats := False\<rparr>;
                         h2 = (if normalize_' p3
                               then OverlayPlotter_Normalize h1
                                      (double_to_int (GetEntries hNClusters))
                                      (sebCount (runDataMap_at run))
                               else h1);
                         h3 = h2\<lparr>LineWidth := 1, MarkerStyle := 20, MarkerSize := 0.6,
                                  MarkerColor := color', LineColor := color', Title := title,
                                  XaxisTitle := xAxisTitle, YaxisTitle := yAxisTitle,
                                  XaxisTitleFont := 42, YaxisTitleFont := 42,
                                  YaxisTitleOffset := 1.4\<rparr>;
                         p4 = (if run = hd (runNumbers_' p3)
                               then p3\<lparr>cOverlay_' := cOverlay_' p3 @ [DrawnHist h3 ''HIST'']\<rparr>
                               else p3\<lparr>cOverlay_' := cOverlay_' p3 @ [DrawnHist h3 ''HIST SAME'']\<rparr>);
                         p5 = p4\<lparr>leg_' := leg_' p4 @ [(h3, ''Run: '' @ run, ''l'')]\<rparr>
                     in p5\<lparr>cout := cout p5 @ [CompletedRun run]\<rparr>
                 | _ \<Rightarrow> p2\<lparr>cout := cout p2 @ [HistogramIssue run]\<rparr>))"

definition Overlay ::
  "TFile_Open \<Rightarrow> string \<Rightarrow> string \<Rightarrow> string \<Rightarrow> string \<Rightarrow> OverlayPlotter \<Rightarrow> OverlayPlotter" where
  "Overlay Open histName title xAxisTitle yAxisTitle p0 =
    (let p1 = ResetCanvas p0;
         p2 = fold (\<lambda>run p. OverlayRun Open run histName title xAxisTitle yAxisTitle p)
                (runNumbers_' p1) p1;
         p3 = p2\<lparr>cOverlay_' := cOverlay_' p2 @ [DrawnLegend (leg_' p2)]\<rparr>;
         p4 = p3\<lparr>cOverlay_' := cOverlay_' p3 @ [DrawnLatex 0.67 0.575 ''sPHENIX EMCal QA'']\<rparr>;
         p5 = p4\<lparr>cOverlay_Title := title\<rparr>
     in p5\<lparr>SavedAs := SavedAs p5 @
          [(''/Users/patsfan753/Desktop/QA_EMCal/OverlayedPlotOutput/Overlayed_'' @ histName @
              ''_QA_October.png'', cOverlay_' p5)]\<rparr>)"

section \<open>The per-run plotter\<close>


record SinglePlotter = Plotter +
  applyCut_' :: bool
  cutValue_' :: real
  histToCut_' :: "string list"

definition SinglePlotter_new :: "bool \<Rightarrow> bool \<Rightarrow> real \<Rightarrow> string list \<Rightarrow> SinglePlotter" where
  "SinglePlotter_new normalize' applyCut cutValue histToCut =
    \<lparr>cout = [], SavedAs = [], normalize_' = normalize',
     applyCut_' = applyCut, cutValue_' = cutValue, histToCut_' = histToCut\<rparr>"

definition GetOutputPath :: "string \<Rightarrow> string" where
  "GetOutputPath histName =
    (if histName = ''hClusterChi''
       then ''/Users/patsfan753/Desktop/QA_EMCal/Individual_Plot_Output/Cluster_Chi/''
     else if histName = ''hClusterPt''
       then ''/Users/patsfan753/Desktop/QA_EMCal/Individual_Plot_Output/Cluster_pt/''
     else if histName = ''hClusterECore''
       then ''/Users/patsfan753/Desktop/QA_EMCal/Individual_Plot_Output/ECore/''
     else if histName = ''hTotalCaloE''
       then ''/Users/patsfan753/Desktop/QA_EMCal/Individual_Plot_Output/Total_Calo_Energy/''
     else if histName = ''hTotalMBD''
       then ''/Users/patsfan753/Desktop/QA_EMCal/Individual_Plot_Output/MBD_charge/''
     else [])"

text \<open>
  The loop of \<^verbatim>\<open>ApplyEnergyCut\<close>, from \<open>bin\<close> to the last bin of the axis. The underflow
  bin \<open>0\<close> and the overflow bin are outside the loop.
\<close>

function ApplyEnergyCut_from :: "real \<Rightarrow> nat \<Rightarrow> TH1F \<Rightarrow> TH1F" where
  "ApplyEnergyCut_from cutValue bin hist =
    (if bin \<le> GetNbinsX hist
     then ApplyEnergyCut_from cutValue (bin + 1)
            (if GetBinCenter hist bin < cutValue then SetBinContent hist bin (Num 0) else hist)
     else hist)"
  by pat_completeness auto
termination
  by (relation "measure (\<lambda>(cutValue, bin, hist). Suc (GetNbinsX hist) - bin)")
     (auto simp: SetBinContent_def)

declare ApplyEnergyCut_from.simps [simp del]

definition ApplyEnergyCut :: "SinglePlotter \<Rightarrow> TH1F \<Rightarrow> TH1F \<times> SinglePlotter" where
  "ApplyEnergyCut p hist =
    (let p1 = p\<lparr>cout := cout p @ [ApplyingEnergyCut]\<rparr>;
         hist1 = ApplyEnergyCut_from (cutValue_' p1) 1 hist
     in (hist1, p1\<lparr>cout := cout p1 @ [EnergyCutApplied (cutValue_' p1)]\<rparr>))"

definition SinglePlotter_Normalize :: "TH1F \<Rightarrow> c_int \<Rightarrow> c_int \<Rightarrow> TH1F" where
  "SinglePlotter_Normalize h nEvents nSEBs =
    (if 0 < sint nEvents \<and> 0 < sint nSEBs
     then Scale h (one_over_int (nEvents * nSEBs))
     else h)"

definition PlotRun ::
  "TFile_Open \<Rightarrow> string \<Rightarrow> string \<Rightarrow> string \<Rightarrow> string \<Rightarrow> string \<Rightarrow> c_int \<Rightarrow>
   SinglePlotter \<Rightarrow> SinglePlotter" where
  "PlotRun Open run histName title xAxisTitle yAxisTitle sebCount' p0 =
    (let filePath = qa_root run
     in case Open filePath of
          None \<Rightarrow> p0\<lparr>cout := cout p0 @ [FileIssue run]\<rparr>
        | Some file \<Rightarrow>
            if IsZombie file then p0\<lparr>cout := cout p0 @ [FileIssue run]\<rparr>
            else
              (case (Get file histName, Get file ''hNClusters'') of
                 (Some hist, Some hNClusters) \<Rightarrow>
                   let (h1, p1) =
                         (if normalize_' p0
                          then let nEvents = double_to_int (GetEntries hNClusters)
                               in (SinglePlotter_Normalize hist nEvents sebCount',
                                   p0\<lparr>cout := cout p0 @ [NormalizedUsing nEvents sebCount']\<rparr>)
                          else (hist, p0\<lparr>cout := cout p0 @ [NoNormalization]\<rparr>));
                       (h2, p2) =
                         (if applyCut_' p1 \<and> histName \<in> set (histToCut_' p1)
                          then ApplyEnergyCut p1 h1
                          else (h1, p1\<lparr>cout := cout p1 @ [NoEnergyCut histName]\<rparr>));
                       h3 = h2\<lparr>LineWidth := 2, Title := title @ '' (Run: '' @ run @ '')'',
                                XaxisTitle := xAxisTitle, YaxisTitle := yAxisTitle\<rparr>;
                       path = GetOutputPath histName @ histName @ ''_Run_'' @ run @ ''.png'';
                       p3 = p2\<lparr>SavedAs := SavedAs p2 @ [(path, [DrawnHist h3 ''HIST''])]\<rparr>
                   in p3\<lparr>cout := cout p3 @ [SavedPlot histName run path]\<rparr>
               | _ \<Rightarrow> p0\<lparr>cout := cout p0 @ [HistogramIssue run]\<rparr>))"

text \<open>
  \<^verbatim>\<open>Plot\<close> iterates over the \<^verbatim>\<open>std::unordered_map\<close> itself; \<open>iteration\<close> is again the
  sequence of its entries as the library enumerates them.
\<close>

definition Plot ::
  "TFile_Open \<Rightarrow> (string \<times> c_int) list \<Rightarrow> string \<Rightarrow> string \<Rightarrow> string \<Rightarrow> string \<Rightarrow>
   SinglePlotter \<Rightarrow> SinglePlotter" where
  "Plot Open iteration histName title xAxisTitle yAxisTitle p0 =
    (let p1 = p0\<lparr>cout := cout p0 @ [StartPlotting histName]\<rparr>;
         p2 = fold (\<lambda>runEntry p.
                 let run = fst runEntry;
                     sebCount' = snd runEntry;
                     pa = p\<lparr>cout := cout p @ [ProcessingRunSEB run sebCount']\<rparr>
                 in PlotRun Open run histName title xAxisTitle yAxisTitle sebCount' pa)
                iteration p1
     in p2\<lparr>cout := cout p2 @ [CompletedPlotting histName]\<rparr>)"

section \<open>The console input of the per-run macro\<close>

text \<open>
  \<^verbatim>\<open>std::cin\<close> (and the \<^verbatim>\<open>std::stringstream\<close> over the selection line) is the characters
  not read yet with the two state bits the macro can see. The library functions are
  modelled as the C++ standard describes them: a formatted extraction starts with a
  sentry, which fails on a stream that is not good and otherwise skips white space
  (failing at the end of the input); \<^verbatim>\<open>getline\<close> and \<^verbatim>\<open>ignore\<close> do not skip white space.
\<close>

record istream =
  buffer :: string
  eofbit :: bool
  failbit :: bool

definition good :: "istream \<Rightarrow> bool" where
  "good s = (\<not> eofbit s \<and> \<not> failbit s)"

definition clear :: "istream \<Rightarrow> istream" where
  "clear s = s\<lparr>eofbit := False, failbit := False\<rparr>"

definition isspace :: "char \<Rightarrow> bool" where
  "isspace c = (c \<in> set [CHR '' '', CHR 0x09, CHR 0x0A, CHR 0x0B, CHR 0x0C, CHR 0x0D])"

definition isdigit :: "char \<Rightarrow> bool" where
  "isdigit c = (c \<in> set ''0123456789'')"

definition sentry :: "istream \<Rightarrow> bool \<times> istream" where
  "sentry s =
    (if \<not> good s then (False, s\<lparr>failbit := True\<rparr>)
     else let rest = dropWhile isspace (buffer s)
          in if rest = [] then (False, s\<lparr>buffer := [], eofbit := True, failbit := True\<rparr>)
             else (True, s\<lparr>buffer := rest\<rparr>))"

text \<open>
  \<^verbatim>\<open>cin >> response\<close>: the next word. When the sentry fails the string keeps its value.
\<close>

definition extract_string :: "istream \<Rightarrow> string \<Rightarrow> string \<times> istream" where
  "extract_string s str =
    (case sentry s of
       (False, s1) \<Rightarrow> (str, s1)
     | (True, s1) \<Rightarrow>
         let rest = dropWhile (\<lambda>c. \<not> isspace c) (buffer s1)
         in (takeWhile (\<lambda>c. \<not> isspace c) (buffer s1), s1\<lparr>buffer := rest, eofbit := (rest = [])\<rparr>))"

text \<open>
  \<^verbatim>\<open>std::getline(cin, line)\<close> reads up to the next newline and drops it;
  \<^verbatim>\<open>cin.ignore(max, '\n')\<close> discards up to and with the next newline.
\<close>

definition getline :: "istream \<Rightarrow> string \<Rightarrow> string \<times> istream" where
  "getline s line =
    (if \<not> good s then (line, s\<lparr>failbit := True\<rparr>)
     else let chars = takeWhile (\<lambda>c. c \<noteq> CHR 0x0A) (buffer s);
              rest = dropWhile (\<lambda>c. c \<noteq> CHR 0x0A) (buffer s)
          in if rest = [] then (chars, s\<lparr>buffer := [], eofbit := True, failbit := (chars = [])\<rparr>)
             else (chars, s\<lparr>buffer := tl rest\<rparr>))"

definition ignore_line :: "istream \<Rightarrow> istream" where
  "ignore_line s =
    (if \<not> good s then s\<lparr>failbit := True\<rparr>
     else let rest = dropWhile (\<lambda>c. c \<noteq> CHR 0x0A) (buffer s)
          in if rest = [] then s\<lparr>buffer := [], eofbit := True\<rparr>
             else s\<lparr>buffer := tl rest\<rparr>)"

text \<open>
  \<^verbatim>\<open>ss >> choice\<close>: an optional sign and decimal digits; the extraction fails when there is
  no digit or the value does not fit an \<^verbatim>\<open>int\<close>.
\<close>

definition decimal :: "string \<Rightarrow> int" where
  "decimal digits = foldl (\<lambda>n c. 10 * n + (int (of_char c) - 48)) 0 digits"

definition extract_int :: "istream \<Rightarrow> c_int option \<times> istream" where
  "extract_int s =
    (case sentry s of
       (False, s1) \<Rightarrow> (None, s1)
     | (True, s1) \<Rightarrow>
         let has_sign = (case buffer s1 of [] \<Rightarrow> False | c # cs \<Rightarrow> c = CHR ''-'' \<or> c = CHR ''+'');
             negative = (case buffer s1 of [] \<Rightarrow> False | c # cs \<Rightarrow> c = CHR ''-'');
             chars = (if has_sign then tl (buffer s1) else buffer s1);
             digits = takeWhile isdigit chars;
             rest = dropWhile isdigit chars;
             s2 = s1\<lparr>buffer := rest, eofbit := (rest = [])\<rparr>;
             v = (if negative then - decimal digits else decimal digits)
         in if digits = [] \<or> v < - 2147483648 \<or> 2147483647 < v
            then (None, s2\<lparr>failbit := True\<rparr>)
            else (Some (word_of_int v), s2))"

text \<open>
  \<^verbatim>\<open>cin >> energy\<close>: the conversion of the characters to a \<^verbatim>\<open>double\<close> is the library's
  (\<^verbatim>\<open>num_get\<close>) and is a parameter: it gives the value and the characters after it, or
  nothing when the characters do not start with a number. A failed conversion reads no
  newline, and the macro discards the rest of the line after it, so the characters it may
  have read are left in the buffer here.
\<close>

definition extract_double ::
  "(string \<Rightarrow> (real \<times> string) option) \<Rightarrow> istream \<Rightarrow> real option \<times> istream" where
  "extract_double num_get s =
    (case sentry s of
       (False, s1) \<Rightarrow> (None, s1)
     | (True, s1) \<Rightarrow>
         (case num_get (buffer s1) of
            None \<Rightarrow> (None, s1\<lparr>failbit := True\<rparr>)
          | Some (v, rest) \<Rightarrow> (Some v, s1\<lparr>buffer := rest, eofbit := (rest = [])\<rparr>)))"

text \<open>\<^verbatim>\<open>AskHistogramToCut\<close>: the menu, two \<^verbatim>\<open>getline\<close>s, and the loop over the line.\<close>

definition options :: "string list" where
  "options = [''hClusterChi'', ''hClusterPt'', ''hClusterECore'', ''hTotalCaloE'', ''hTotalMBD'']"

text \<open>The loop \<^verbatim>\<open>while (ss >> choice)\<close> ends: every extraction that succeeds reads a digit.\<close>

lemma extract_int_consumes:
  assumes "extract_int ss = (Some choice, ss1)"
  shows "length (buffer ss1) < length (buffer ss)"
proof -
  have drop_less: "length (dropWhile P xs) < length xs" if "takeWhile P xs \<noteq> []" for P and xs :: string
    using that by (cases xs) (auto simp add: length_dropWhile_le le_imp_less_Suc split: if_splits)
  show ?thesis
    using assms
      drop_less [of isdigit "buffer (snd (sentry ss))"]
      drop_less [of isdigit "tl (buffer (snd (sentry ss)))"]
      length_dropWhile_le [of isspace "buffer ss"]
    by (auto simp add: extract_int_def sentry_def Let_def split: prod.splits bool.splits if_splits)
qed

function AskHistogramToCut_loop ::
  "istream \<Rightarrow> string list \<Rightarrow> message list \<Rightarrow> string list \<times> message list" where
  "AskHistogramToCut_loop ss histogramsToCut out =
    (case extract_int ss of
       (None, ss1) \<Rightarrow> (histogramsToCut, out)
     | (Some choice, ss1) \<Rightarrow>
         if 1 \<le> sint choice \<and> sint choice \<le> 5
         then AskHistogramToCut_loop ss1
                (histogramsToCut @ [options ! (nat (sint choice) - 1)]) out
         else AskHistogramToCut_loop ss1 histogramsToCut (out @ [InvalidChoice choice]))"
  by pat_completeness auto
termination
  by (relation "measure (\<lambda>(ss, histogramsToCut, out). length (buffer ss))")
     (auto simp add: extract_int_consumes [OF sym])

declare AskHistogramToCut_loop.simps [simp del]

definition AskHistogramToCut ::
  "istream \<Rightarrow> message list \<Rightarrow> string list \<times> istream \<times> message list" where
  "AskHistogramToCut cin out =
    (let out1 = out @ [WhichHistograms] @ map (\<lambda>i. MenuItem (i + 1) (options ! i)) [0..<5];
         (line1, cin1) = getline cin [];
         (line, cin2) = getline cin1 line1;
         ss = \<lparr>buffer = line, eofbit = False, failbit = False\<rparr>;
         (histogramsToCut, out2) = AskHistogramToCut_loop ss [] out1
     in (histogramsToCut, cin2, out2))"

text \<open>
  \<^verbatim>\<open>AskEnergyCutValue\<close> and \<^verbatim>\<open>AskApplyCut\<close> loop until the input is valid; a loop that goes
  on forever is the value \<open>None\<close>. The extraction of \<^verbatim>\<open>energy\<close> gives no value exactly when
  \<^verbatim>\<open>cin.fail()\<close> holds after it.
\<close>

partial_function (option) AskEnergyCutValue ::
  "(string \<Rightarrow> (real \<times> string) option) \<Rightarrow> istream \<Rightarrow> message list \<Rightarrow>
   (real \<times> istream \<times> message list) option" where
  "AskEnergyCutValue num_get cin out =
    (case extract_double num_get cin of
       (Some energy, cin1) \<Rightarrow> Some (energy, cin1, out @ [EnterEnergyCut])
     | (None, cin1) \<Rightarrow>
         AskEnergyCutValue num_get (ignore_line (clear cin1)) (out @ [EnterEnergyCut, InvalidEnergy]))"

partial_function (option) AskApplyCut_loop ::
  "istream \<Rightarrow> string \<Rightarrow> message list \<Rightarrow> (bool \<times> istream \<times> message list) option" where
  "AskApplyCut_loop cin response out =
    (case extract_string cin response of
       (response1, cin1) \<Rightarrow>
         if response1 = ''yes'' then Some (True, cin1, out)
         else if response1 = ''no'' then Some (False, cin1, out)
         else AskApplyCut_loop cin1 response1 (out @ [InvalidResponse]))"

definition AskApplyCut :: "istream \<Rightarrow> message list \<Rightarrow> (bool \<times> istream \<times> message list) option" where
  "AskApplyCut cin out = AskApplyCut_loop cin [] (out @ [ApplyCutPrompt])"

section \<open>Notions of the specification, and an example store\<close>

text \<open>
  A run loads for a histogram name when its result file opens, is no zombie, and holds
  both the histogram of that name and the event-count histogram \<^verbatim>\<open>hNClusters\<close>: the two
  tests of \<^verbatim>\<open>OverlayRun\<close> and \<^verbatim>\<open>PlotRun\<close> that come before any drawing.
\<close>

definition loads :: "TFile_Open \<Rightarrow> string \<Rightarrow> string \<Rightarrow> bool" where
  "loads Open histName run =
    (case Open (qa_root run) of
       None \<Rightarrow> False
     | Some file \<Rightarrow>
         \<not> IsZombie file \<and> Get file histName \<noteq> None \<and> Get file ''hNClusters'' \<noteq> None)"

text \<open>The draw options of the histograms on a canvas, in drawing order.\<close>

fun draw_options :: "primitive list \<Rightarrow> string list" where
  "draw_options [] = []"
| "draw_options (DrawnHist h opt # ps) = opt # draw_options ps"
| "draw_options (_ # ps) = draw_options ps"

text \<open>The runs announced on the console (\<^verbatim>\<open>Processing data for run\<close>), in order.\<close>

fun processed_runs :: "message list \<Rightarrow> string list" where
  "processed_runs [] = []"
| "processed_runs (ProcessingRun run # ms) = run # processed_runs ms"
| "processed_runs (_ # ms) = processed_runs ms"

text \<open>
  The histogram of the specification's cut example: four bins with the centres
  \<open>0.5\<close>, \<open>1.5\<close>, \<open>2.5\<close>, \<open>3.5\<close>; the contents are \<open>20\<close>, \<open>30\<close>, \<open>40\<close>, \<open>50\<close>, with
  \<open>10\<close> in the underflow and \<open>60\<close> in the overflow. The example store has a good file
  for the runs 21813 and 21615, a zombie for 21599, a file without \<^verbatim>\<open>hNClusters\<close> for
  21598, and no file for any other run.
\<close>

definition example_hist :: TH1F where
  "example_hist =
    \<lparr>GetNbinsX = 4, GetBinCenter = (\<lambda>bin. real bin - 1 / 2),
     GetBinContent = (\<lambda>bin. Num (10 * real bin + 10)),
     GetEntries = 100, Stats = True, LineWidth = 1, LineColor = (kBlack, 0),
     MarkerStyle = 1, MarkerSize = 1, MarkerColor = (kBlack, 0),
     Title = ''ECore'', XaxisTitle = [], YaxisTitle = [],
     XaxisTitleFont = 62, YaxisTitleFont = 62, YaxisTitleOffset = 0\<rparr>"

definition example_Open :: TFile_Open where
  "example_Open =
    [qa_root ''21813'' \<mapsto>
       \<lparr>IsZombie = False,
        Get = [''hClusterECore'' \<mapsto> example_hist, ''hNClusters'' \<mapsto> example_hist]\<rparr>,
     qa_root ''21615'' \<mapsto>
       \<lparr>IsZombie = False,
        Get = [''hClusterECore'' \<mapsto> example_hist, ''hNClusters'' \<mapsto> example_hist]\<rparr>,
     qa_root ''21599'' \<mapsto>
       \<lparr>IsZombie = True,
        Get = [''hClusterECore'' \<mapsto> example_hist, ''hNClusters'' \<mapsto> example_hist]\<rparr>,
     qa_root ''21598'' \<mapsto>
       \<lparr>IsZombie = False, Get = [''hClusterECore'' \<mapsto> example_hist]\<rparr>]"

text \<open>
  An order in which a hash table may enumerate the run table: all fourteen entries, the
  last one of the table first. (A table of 17 buckets that puts a new entry at the head
  of its bucket gives this order for the usual hash values of the fourteen keys.)
\<close>

definition example_iteration :: "(string \<times> RunData) list" where
  "example_iteration =
    [(''21889'', \<lparr>color = (kGray, 1), sebCount = 7\<rparr>),
     (''21518'', \<lparr>color = (kPink, - 3), sebCount = 8\<rparr>),
     (''22982'', \<lparr>color = (kAzure, 2), sebCount = 5\<rparr>),
     (''22949'', \<lparr>color = (kMagenta, 2), sebCount = 5\<rparr>),
     (''22951'', \<lparr>color = (kAzure, 4), sebCount = 5\<rparr>),
     (''22950'', \<lparr>color = (kViolet, 1), sebCount = 5\<rparr>),
     (''22979'', \<lparr>color = (kMagenta, 0), sebCount = 5\<rparr>),
     (''21891'', \<lparr>color = (kCyan, 3), sebCount = 7\<rparr>),
     (''21598'', \<lparr>color = (kRed, 0), sebCount = 8\<rparr>),
     (''21599'', \<lparr>color = (kBlue, 3), sebCount = 8\<rparr>),
     (''21520'', \<lparr>color = (kOrange, 1), sebCount = 8\<rparr>),
     (''21615'', \<lparr>color = (kBlack, 0), sebCount = 8\<rparr>),
     (''21796'', \<lparr>color = (kOrange, 7), sebCount = 8\<rparr>),
     (''21813'', \<lparr>color = (kBlue, 0), sebCount = 7\<rparr>)]"

text \<open>A stream in its initial, good state over the given characters.\<close>

definition stdin :: "string \<Rightarrow> istream" where
  "stdin chars = \<lparr>buffer = chars, eofbit = False, failbit = False\<rparr>"

text \<open>
  The integers that \<^verbatim>\<open>ss >> choice\<close> reads from a stream, up to the first extraction that
  fails.
\<close>

function extracted_ints :: "istream \<Rightarrow> c_int list" where
  "extracted_ints ss =
    (case extract_int ss of
       (None, ss1) \<Rightarrow> []
     | (Some choice, ss1) \<Rightarrow> choice # extracted_ints ss1)"
  by pat_completeness auto
termination
  by (relation "measure (\<lambda>ss. length (buffer ss))") (auto simp add: extract_int_consumes [OF sym])

declare extracted_ints.simps [simp del]

text \<open>A conversion for the examples: unsigned decimal integers only.\<close>

definition example_num_get :: "string \<Rightarrow> (real \<times> string) option" where
  "example_num_get chars =
    (if takeWhile isdigit chars = [] then None
     else Some (real_of_int (decimal (takeWhile isdigit chars)), dropWhile isdigit chars))"

section \<open>Normalization\<close>

lemma sint_mult_in_range:
  fixes n w :: c_int
  assumes "0 < sint n" and "0 < sint w" and "sint n * sint w \<le> 2147483647"
  shows "sint (n * w) = sint n * sint w"
proof -
  have "0 < sint n * sint w"
    using assms(1,2) by (rule mult_pos_pos)
  then have "- (2 ^ (LENGTH(32) - Suc 0)) \<le> sint n * sint w
      \<and> sint n * sint w < 2 ^ (LENGTH(32) - Suc 0)"
    using assms(3) by simp
  then show ?thesis
    by (simp add: sint_word_ariths signed_take_bit_int_eq_self)
qed

lemma GetBinContent_Scale: "GetBinContent (Scale h c) bin = dmul c (GetBinContent h bin)"
  by (simp add: Scale_def)

text \<open>
  As long as the product of the two counts fits an \<^verbatim>\<open>int\<close>, both \<^verbatim>\<open>Normalize\<close> functions
  divide every finite bin content by it: in the model, which does not round. The program
  rounds the factor to a \<^verbatim>\<open>double\<close> and the product to the \<^verbatim>\<open>Float_t\<close> of the bin.
\<close>

lemma Normalize_in_range:
  assumes "0 < sint nEvents" and "0 < sint nSEBs" and "sint nEvents * sint nSEBs \<le> 2147483647"
    and "GetBinContent h bin = Num v"
  shows "GetBinContent (OverlayPlotter_Normalize h nEvents nSEBs) bin =
           Num (v / (real_of_int (sint nEvents) * real_of_int (sint nSEBs)))"
    and "GetBinContent (SinglePlotter_Normalize h nEvents nSEBs) bin =
           Num (v / (real_of_int (sint nEvents) * real_of_int (sint nSEBs)))"
  using assms sint_mult_in_range [OF assms(1,2,3)]
  by (simp_all add: OverlayPlotter_Normalize_def SinglePlotter_Normalize_def
      GetBinContent_Scale one_over_int_def)

text \<open>
  Claim C1: for every run with \<open>nEvents > 0\<close> and a weight factor \<open>> 0\<close>, \<^verbatim>\<open>Normalize\<close> sets
  every bin content to the original content divided by \<open>nEvents * weightFactor\<close>.

  Both functions multiply the two counts as \<^verbatim>\<open>int\<close> before the conversion to \<^verbatim>\<open>double\<close>.
  With \<open>268435456\<close> events and the weight \<open>8\<close> of run 21796 the product \<open>2147483648\<close> does
  not fit: it wraps to \<open>- 2147483648\<close>, and a bin content of \<open>20\<close> becomes
  \<open>- 20 / 2147483648\<close> instead of \<open>20 / 2147483648\<close>.
\<close>

theorem Normalize_int_overflow:
  "GetBinContent (OverlayPlotter_Normalize example_hist 268435456 8) 1 = Num (- (20 / 2147483648))
   \<and> GetBinContent (SinglePlotter_Normalize example_hist 268435456 8) 1 = Num (- (20 / 2147483648))
   \<and> Num (- (20 / 2147483648)) \<noteq> Num (20 / (268435456 * 8))"
  by (simp add: OverlayPlotter_Normalize_def SinglePlotter_Normalize_def GetBinContent_Scale
      one_over_int_def example_hist_def)

text \<open>
  Claim C2: when \<open>nEvents\<close> is \<open>0\<close> or the weight factor is \<open>\<le> 0\<close>, \<^verbatim>\<open>Normalize\<close> leaves the
  histogram as it is; the function has no error result, so nothing is signalled.
\<close>

theorem Normalize_noop:
  assumes "sint nEvents = 0 \<or> sint nSEBs \<le> 0"
  shows "OverlayPlotter_Normalize h nEvents nSEBs = h
    \<and> SinglePlotter_Normalize h nEvents nSEBs = h"
  using assms by (auto simp add: OverlayPlotter_Normalize_def SinglePlotter_Normalize_def)

theorem Normalize_noop_witness:
  "OverlayPlotter_Normalize example_hist 0 7 = example_hist
   \<and> SinglePlotter_Normalize example_hist 0 7 = example_hist
   \<and> OverlayPlotter_Normalize example_hist 1000 (- 1) = example_hist
   \<and> SinglePlotter_Normalize example_hist 1000 0 = example_hist"
  using Normalize_noop [of 0 7 example_hist] Normalize_noop [of 1000 "- 1" example_hist]
    Normalize_noop [of 1000 0 example_hist]
  by simp

text \<open>
  Two calls in sequence scale twice, as long as the product of the counts fits an
  \<^verbatim>\<open>int\<close>; and a second call changes the histogram, so \<^verbatim>\<open>Normalize\<close> is not idempotent.
\<close>

lemma Normalize_twice_in_range:
  assumes "0 < sint nEvents" and "0 < sint nSEBs" and "sint nEvents * sint nSEBs \<le> 2147483647"
    and "GetBinContent h bin = Num v"
  shows "GetBinContent
           (OverlayPlotter_Normalize (OverlayPlotter_Normalize h nEvents nSEBs) nEvents nSEBs) bin =
         Num (v * (1 / (real_of_int (sint nEvents) * real_of_int (sint nSEBs))) ^ 2)"
    and "GetBinContent
           (SinglePlotter_Normalize (SinglePlotter_Normalize h nEvents nSEBs) nEvents nSEBs) bin =
         Num (v * (1 / (real_of_int (sint nEvents) * real_of_int (sint nSEBs))) ^ 2)"
  using Normalize_in_range(1) [OF assms(1,2,3), of "OverlayPlotter_Normalize h nEvents nSEBs" bin]
    Normalize_in_range(2) [OF assms(1,2,3), of "SinglePlotter_Normalize h nEvents nSEBs" bin]
    Normalize_in_range [OF assms]
  by (simp_all add: power2_eq_square)

lemma Normalize_not_idempotent:
  "OverlayPlotter_Normalize (OverlayPlotter_Normalize example_hist 2 5) 2 5
     \<noteq> OverlayPlotter_Normalize example_hist 2 5"
proof
  assume "OverlayPlotter_Normalize (OverlayPlotter_Normalize example_hist 2 5) 2 5
     = OverlayPlotter_Normalize example_hist 2 5"
  then have "GetBinContent (OverlayPlotter_Normalize (OverlayPlotter_Normalize example_hist 2 5) 2 5) 1
     = GetBinContent (OverlayPlotter_Normalize example_hist 2 5) 1"
    by simp
  then show False
    by (simp add: OverlayPlotter_Normalize_def GetBinContent_Scale one_over_int_def example_hist_def)
qed

text \<open>
  Claim C6: one call of \<^verbatim>\<open>Normalize\<close> is a function of its inputs, and for \<open>nEvents > 0\<close> and a
  weight factor \<open>> 0\<close> two calls in sequence multiply every bin by
  \<open>1 / (nEvents * weightFactor)\<close> squared.

  The same \<^verbatim>\<open>int\<close> product as in claim C1 breaks the factor: with \<open>300000000\<close> events
  and the weight \<open>8\<close> the product \<open>2400000000\<close> wraps to \<open>- 1894967296\<close>, and two calls turn
  a bin content of \<open>20\<close> into \<open>20 / 1894967296\<^sup>2\<close> instead of \<open>20 / 2400000000\<^sup>2\<close>.
\<close>

theorem Normalize_twice_int_overflow:
  "GetBinContent
     (OverlayPlotter_Normalize (OverlayPlotter_Normalize example_hist 300000000 8) 300000000 8) 1
     = Num (20 / 1894967296 ^ 2)
   \<and> GetBinContent
     (SinglePlotter_Normalize (SinglePlotter_Normalize example_hist 300000000 8) 300000000 8) 1
     = Num (20 / 1894967296 ^ 2)
   \<and> Num (20 / 1894967296 ^ 2) \<noteq> Num (20 / (300000000 * 8) ^ 2)"
  by (simp add: OverlayPlotter_Normalize_def SinglePlotter_Normalize_def GetBinContent_Scale
      one_over_int_def example_hist_def power2_eq_square)



section \<open>The energy cut\<close>

lemma ApplyEnergyCut_from_axis:
  "GetNbinsX (ApplyEnergyCut_from cutValue b hist) = GetNbinsX hist
   \<and> GetBinCenter (ApplyEnergyCut_from cutValue b hist) = GetBinCenter hist"
proof (induction cutValue b hist rule: ApplyEnergyCut_from.induct)
  case (1 cutValue bin hist)
  show ?case
  proof (cases "bin \<le> GetNbinsX hist")
    case True
    with "1" show ?thesis
      by (subst (1 2) ApplyEnergyCut_from.simps) (simp add: SetBinContent_def)
  next
    case False
    then show ?thesis
      by (subst (1 2) ApplyEnergyCut_from.simps) simp
  qed
qed

lemma ApplyEnergyCut_from_content:
  "GetBinContent (ApplyEnergyCut_from cutValue b hist) bin =
     (if b \<le> bin \<and> bin \<le> GetNbinsX hist \<and> GetBinCenter hist bin < cutValue
      then Num 0 else GetBinContent hist bin)"
proof (induction cutValue b hist rule: ApplyEnergyCut_from.induct)
  case (1 cutValue b hist)
  show ?case
  proof (cases "b \<le> GetNbinsX hist")
    case True
    with "1" show ?thesis
      by (subst ApplyEnergyCut_from.simps) (auto simp add: SetBinContent_def)
  next
    case False
    then show ?thesis
      by (subst ApplyEnergyCut_from.simps) auto
  qed
qed

lemma Normalize_axis:
  "GetNbinsX (SinglePlotter_Normalize h n w) = GetNbinsX h"
  "GetBinCenter (SinglePlotter_Normalize h n w) = GetBinCenter h"
  by (simp_all add: SinglePlotter_Normalize_def Scale_def)

text \<open>
  Claim C3: when the cut is enabled and the histogram's name is among the names to cut,
  the cut sets to zero every bin of the axis whose centre is below the threshold and
  leaves every other bin as it is; with the centres \<open>0.5\<close>, \<open>1.5\<close>, \<open>2.5\<close>, \<open>3.5\<close> and the
  threshold \<open>2.0\<close> the first two bins are zeroed and the last two keep their contents.

  The first part is \<^verbatim>\<open>ApplyEnergyCut\<close> on any histogram; the second is the histogram that
  \<^verbatim>\<open>PlotRun\<close> draws and saves for a run that loads, cut after the normalization. The
  underflow and the overflow are not bins of the axis: the loop leaves them alone.
\<close>

theorem ApplyEnergyCut_zeroes_below_threshold:
  assumes "Open (qa_root run) = Some file" and "\<not> IsZombie file"
    and "Get file histName = Some hist" and "Get file ''hNClusters'' = Some hNClusters"
    and "applyCut_' p" and "histName \<in> set (histToCut_' p)"
  shows "(\<forall>h bin. GetBinContent (fst (ApplyEnergyCut p h)) bin =
            (if 1 \<le> bin \<and> bin \<le> GetNbinsX h \<and> GetBinCenter h bin < cutValue_' p
             then Num 0 else GetBinContent h bin))
    \<and> (\<exists>h. SavedAs (PlotRun Open run histName title xAxisTitle yAxisTitle sebCount' p) =
            SavedAs p @
              [(GetOutputPath histName @ histName @ ''_Run_'' @ run @ ''.png'', [DrawnHist h ''HIST''])]
          \<and> (\<forall>bin. GetBinContent h bin =
                (if 1 \<le> bin \<and> bin \<le> GetNbinsX hist \<and> GetBinCenter hist bin < cutValue_' p
                 then Num 0
                 else GetBinContent
                        (if normalize_' p
                         then SinglePlotter_Normalize hist (double_to_int (GetEntries hNClusters)) sebCount'
                         else hist) bin)))"
proof (intro conjI allI)
  fix h bin
  show "GetBinContent (fst (ApplyEnergyCut p h)) bin =
            (if 1 \<le> bin \<and> bin \<le> GetNbinsX h \<and> GetBinCenter h bin < cutValue_' p
             then Num 0 else GetBinContent h bin)"
    by (simp add: ApplyEnergyCut_def Let_def ApplyEnergyCut_from_content)
next
  show "\<exists>h. SavedAs (PlotRun Open run histName title xAxisTitle yAxisTitle sebCount' p) =
            SavedAs p @
              [(GetOutputPath histName @ histName @ ''_Run_'' @ run @ ''.png'', [DrawnHist h ''HIST''])]
          \<and> (\<forall>bin. GetBinContent h bin =
                (if 1 \<le> bin \<and> bin \<le> GetNbinsX hist \<and> GetBinCenter hist bin < cutValue_' p
                 then Num 0
                 else GetBinContent
                        (if normalize_' p
                         then SinglePlotter_Normalize hist (double_to_int (GetEntries hNClusters)) sebCount'
                         else hist) bin))"
    using assms
    by (simp add: PlotRun_def ApplyEnergyCut_def Let_def ApplyEnergyCut_from_content Normalize_axis)
qed

theorem ApplyEnergyCut_spec_example:
  "map (GetBinContent (fst (ApplyEnergyCut (SinglePlotter_new True True 2 [''hClusterECore'']) example_hist)))
       [0, 1, 2, 3, 4, 5] = [Num 10, Num 0, Num 0, Num 40, Num 50, Num 60]
   \<and> (\<exists>h. SavedAs (PlotRun example_Open ''21813'' ''hClusterECore'' ''ECore'' ''E'' ''Counts'' 7
                     (SinglePlotter_new False True 2 [''hClusterECore''])) =
              [(''/Users/patsfan753/Desktop/QA_EMCal/Individual_Plot_Output/ECore/hClusterECore_Run_21813.png'',
                [DrawnHist h ''HIST''])]
          \<and> map (GetBinContent h) [0, 1, 2, 3, 4, 5] = [Num 10, Num 0, Num 0, Num 40, Num 50, Num 60])"
proof -
  define qa where "qa = \<lparr>IsZombie = False,
        Get = [''hClusterECore'' \<mapsto> example_hist, ''hNClusters'' \<mapsto> example_hist]\<rparr>"
  define p where "p = SinglePlotter_new False True 2 [''hClusterECore'']"
  define q where "q = SinglePlotter_new True True 2 [''hClusterECore'']"
  have pre: "example_Open (qa_root ''21813'') = Some qa" "\<not> IsZombie qa"
    "Get qa ''hClusterECore'' = Some example_hist" "Get qa ''hNClusters'' = Some example_hist"
    "applyCut_' p" "''hClusterECore'' \<in> set (histToCut_' p)"
    "applyCut_' q" "''hClusterECore'' \<in> set (histToCut_' q)"
    by (simp_all add: example_Open_def qa_root_def qa_def p_def q_def SinglePlotter_new_def)
  have vals: "cutValue_' p = 2" "cutValue_' q = 2" "\<not> normalize_' p" "SavedAs p = []"
    by (simp_all add: p_def q_def SinglePlotter_new_def)
  from ApplyEnergyCut_zeroes_below_threshold [of example_Open "''21813''" qa "''hClusterECore''" example_hist example_hist p
      "''ECore''" "''E''" "''Counts''" 7, OF pre(1-6)]
  obtain h where h: "SavedAs (PlotRun example_Open ''21813'' ''hClusterECore'' ''ECore'' ''E'' ''Counts'' 7 p) =
        SavedAs p @ [(GetOutputPath ''hClusterECore'' @ ''hClusterECore'' @ ''_Run_'' @ ''21813'' @ ''.png'',
                      [DrawnHist h ''HIST''])]"
    and c: "\<And>bin. GetBinContent h bin =
                (if 1 \<le> bin \<and> bin \<le> GetNbinsX example_hist \<and> GetBinCenter example_hist bin < cutValue_' p
                 then Num 0
                 else GetBinContent
                        (if normalize_' p
                         then SinglePlotter_Normalize example_hist (double_to_int (GetEntries example_hist)) 7
                         else example_hist) bin)"
    by blast
  have 1: "map (GetBinContent h) [0, 1, 2, 3, 4, 5] = [Num 10, Num 0, Num 0, Num 40, Num 50, Num 60]"
    by (simp add: c vals example_hist_def)
  have 2: "SavedAs (PlotRun example_Open ''21813'' ''hClusterECore'' ''ECore'' ''E'' ''Counts'' 7 p) =
      [(''/Users/patsfan753/Desktop/QA_EMCal/Individual_Plot_Output/ECore/hClusterECore_Run_21813.png'',
                [DrawnHist h ''HIST''])]"
    using h by (simp add: vals GetOutputPath_def)
  from ApplyEnergyCut_zeroes_below_threshold [of example_Open "''21813''" qa "''hClusterECore''" example_hist example_hist q
      "''ECore''" "''E''" "''Counts''" 7, OF pre(1-4) pre(7,8)]
  have "\<And>bin. GetBinContent (fst (ApplyEnergyCut q example_hist)) bin =
            (if 1 \<le> bin \<and> bin \<le> GetNbinsX example_hist \<and> GetBinCenter example_hist bin < cutValue_' q
             then Num 0 else GetBinContent example_hist bin)"
    by blast
  then have 3: "map (GetBinContent (fst (ApplyEnergyCut q example_hist))) [0, 1, 2, 3, 4, 5] =
      [Num 10, Num 0, Num 0, Num 40, Num 50, Num 60]"
    by (simp add: vals example_hist_def)
  show ?thesis
    unfolding p_def [symmetric] q_def [symmetric]
    by (intro conjI exI [of _ h]) (rule 3, rule 2, rule 1)
qed

section \<open>Runs and sessions\<close>

lemma OverlayRun_frame:
  "runNumbers_' (OverlayRun Open run histName title x y p) = runNumbers_' p"
  "normalize_' (OverlayRun Open run histName title x y p) = normalize_' p"
  "SavedAs (OverlayRun Open run histName title x y p) = SavedAs p"
  by (simp_all add: OverlayRun_def Let_def split: option.splits)

lemma OverlayRun_skip:
  assumes "\<not> loads Open histName run"
  shows "cOverlay_' (OverlayRun Open run histName title x y p) = cOverlay_' p"
    and "leg_' (OverlayRun Open run histName title x y p) = leg_' p"
    and "cout (OverlayRun Open run histName title x y p) = cout p @ [ProcessingRun run, FileIssue run]
       \<or> cout (OverlayRun Open run histName title x y p) =
            cout p @ [ProcessingRun run, AccessingHistogram histName, HistogramIssue run]"
  using assms
  by (auto simp add: OverlayRun_def loads_def Let_def split: option.splits)

lemma OverlayRun_draws:
  assumes "loads Open histName run"
  shows "\<exists>h. cOverlay_' (OverlayRun Open run histName title x y p) =
            cOverlay_' p @ [DrawnHist h (if run = hd (runNumbers_' p) then ''HIST'' else ''HIST SAME'')]
          \<and> leg_' (OverlayRun Open run histName title x y p) = leg_' p @ [(h, ''Run: '' @ run, ''l'')]"
  using assms
  by (auto simp add: OverlayRun_def loads_def Let_def split: option.splits)

lemma OverlayRun_alone:
  "cOverlay_' (OverlayRun Open run histName title x y p) =
     cOverlay_' p @ cOverlay_' (OverlayRun Open run histName title x y (ResetCanvas p))"
  "leg_' (OverlayRun Open run histName title x y p) =
     leg_' p @ leg_' (OverlayRun Open run histName title x y (ResetCanvas p))"
  by (simp_all add: OverlayRun_def ResetCanvas_def Let_def split: option.splits)

lemma draw_options_append: "draw_options (ps @ qs) = draw_options ps @ draw_options qs"
  by (induction ps rule: draw_options.induct) simp_all

lemma OverlayRun_options:
  "draw_options (cOverlay_' (OverlayRun Open run histName title x y p)) =
     draw_options (cOverlay_' p) @
       (if loads Open histName run
        then [if run = hd (runNumbers_' p) then ''HIST'' else ''HIST SAME''] else [])"
proof (cases "loads Open histName run")
  case True
  from OverlayRun_draws [OF True, of title x y p] show ?thesis
    using True by (auto simp add: draw_options_append)
next
  case False
  then show ?thesis
    by (simp add: OverlayRun_skip)
qed

lemma OverlayRun_labels:
  "map (fst \<circ> snd) (leg_' (OverlayRun Open run histName title x y p)) =
     map (fst \<circ> snd) (leg_' p) @ (if loads Open histName run then [''Run: '' @ run] else [])"
proof (cases "loads Open histName run")
  case True
  from OverlayRun_draws [OF True, of title x y p] show ?thesis
    using True by auto
next
  case False
  then show ?thesis
    by (simp add: OverlayRun_skip)
qed

lemma loop_frame:
  "runNumbers_' (fold (\<lambda>run p. OverlayRun Open run histName title x y p) runs p) = runNumbers_' p"
  by (induction runs arbitrary: p) (simp_all add: OverlayRun_frame)

lemma loop_options:
  "draw_options
     (cOverlay_' (fold (\<lambda>run p. OverlayRun Open run histName title x y p) runs p)) =
   draw_options (cOverlay_' p) @
     map (\<lambda>run. if run = hd (runNumbers_' p) then ''HIST'' else ''HIST SAME'')
       (filter (loads Open histName) runs)"
  by (induction runs arbitrary: p) (simp_all add: OverlayRun_options OverlayRun_frame)

lemma loop_labels:
  "map (fst \<circ> snd) (leg_' (fold (\<lambda>run p. OverlayRun Open run histName title x y p) runs p)) =
   map (fst \<circ> snd) (leg_' p) @ map (\<lambda>run. ''Run: '' @ run) (filter (loads Open histName) runs)"
  by (induction runs arbitrary: p) (simp_all add: OverlayRun_labels)

lemma OverlayRun_reset_cong:
  assumes "normalize_' p = normalize_' q" and "runNumbers_' p = runNumbers_' q"
  shows "cOverlay_' (OverlayRun Open run histName title x y (ResetCanvas p)) =
         cOverlay_' (OverlayRun Open run histName title x y (ResetCanvas q))"
    and "leg_' (OverlayRun Open run histName title x y (ResetCanvas p)) =
         leg_' (OverlayRun Open run histName title x y (ResetCanvas q))"
  using assms
  by (simp_all add: OverlayRun_def ResetCanvas_def Let_def split: option.splits)

lemma loop_alone:
  "cOverlay_' (fold (\<lambda>run p. OverlayRun Open run histName title x y p) runs p) =
     cOverlay_' p @
       concat (map (\<lambda>run. cOverlay_' (OverlayRun Open run histName title x y (ResetCanvas p))) runs)
   \<and> leg_' (fold (\<lambda>run p. OverlayRun Open run histName title x y p) runs p) =
     leg_' p @
       concat (map (\<lambda>run. leg_' (OverlayRun Open run histName title x y (ResetCanvas p))) runs)"
proof (induction runs arbitrary: p)
  case Nil
  show ?case by simp
next
  case (Cons run runs)
  let ?p1 = "OverlayRun Open run histName title x y p"
  have c: "cOverlay_' (OverlayRun Open r histName title x y (ResetCanvas ?p1)) =
           cOverlay_' (OverlayRun Open r histName title x y (ResetCanvas p))" for r
    by (rule OverlayRun_reset_cong) (simp_all add: OverlayRun_frame)
  have l: "leg_' (OverlayRun Open r histName title x y (ResetCanvas ?p1)) =
           leg_' (OverlayRun Open r histName title x y (ResetCanvas p))" for r
    by (rule OverlayRun_reset_cong) (simp_all add: OverlayRun_frame)
  show ?case
    using Cons.IH [of ?p1]
    by (simp add: c l OverlayRun_alone [of Open run histName title x y p])
qed

lemma Overlay_options:
  "draw_options (cOverlay_' (Overlay Open histName title x y p)) =
     map (\<lambda>run. if run = hd (runNumbers_' p) then ''HIST'' else ''HIST SAME'')
       (filter (loads Open histName) (runNumbers_' p))"
  by (simp add: Overlay_def Let_def draw_options_append loop_options ResetCanvas_def)

lemma Overlay_labels:
  "map (fst \<circ> snd) (leg_' (Overlay Open histName title x y p)) =
     map (\<lambda>run. ''Run: '' @ run) (filter (loads Open histName) (runNumbers_' p))"
  by (simp add: Overlay_def Let_def loop_labels ResetCanvas_def)


lemma runNumbers_new [simp]: "runNumbers_' (OverlayPlotter_new normalize' iteration) = map fst iteration"
proof -
  have "fold (\<lambda>entry runs. runs @ [fst entry]) iteration acc = acc @ map fst iteration" for acc
    by (induction iteration arbitrary: acc) simp_all
  then show ?thesis
    by (simp add: OverlayPlotter_new_def)
qed

lemma PlotRun_skip:
  assumes "\<not> loads Open histName run"
  shows "SavedAs (PlotRun Open run histName title x y seb q) = SavedAs q"
    and "cout (PlotRun Open run histName title x y seb q) = cout q @ [FileIssue run]
       \<or> cout (PlotRun Open run histName title x y seb q) = cout q @ [HistogramIssue run]"
  using assms
  by (auto simp add: PlotRun_def loads_def Let_def split: option.splits)

lemma PlotRun_saves:
  assumes "loads Open histName run"
  shows "\<exists>h. SavedAs (PlotRun Open run histName title x y seb q) =
            SavedAs q @
              [(GetOutputPath histName @ histName @ ''_Run_'' @ run @ ''.png'', [DrawnHist h ''HIST''])]"
  using assms
  by (auto simp add: PlotRun_def loads_def Let_def ApplyEnergyCut_def split: option.splits)

lemma example_loads:
  "loads example_Open ''hClusterECore'' ''21813''"
  "\<not> loads example_Open ''hClusterECore'' ''21796''"
  "loads example_Open ''hClusterECore'' ''21615''"
  "\<not> loads example_Open ''hClusterECore'' ''21599''"
  "\<not> loads example_Open ''hClusterECore'' ''21598''"
  by (simp_all add: loads_def example_Open_def qa_root_def)

text \<open>
  Claim C4: a run contributes a series and a legend entry to the session if and only if
  it loads (its file opens and is no zombie, and both histograms are in it); a run that
  does not load is skipped with a diagnostic, adds no legend entry, leaves the canvas and
  the legend as they are, and has no effect on what the other runs draw.

  The first two parts are one call of \<^verbatim>\<open>OverlayRun\<close> (and of \<^verbatim>\<open>PlotRun\<close>, which saves
  one image per run that loads). In the last part the canvas and the legend after the loop
  over any list of runs are what each run draws on a cleared canvas, one after the other:
  no run's series depends on another run.
\<close>

theorem run_contributes_iff_it_loads:
  "(loads Open histName run \<longrightarrow>
      (\<exists>h opt. cOverlay_' (OverlayRun Open run histName title x y p) = cOverlay_' p @ [DrawnHist h opt]
         \<and> leg_' (OverlayRun Open run histName title x y p) = leg_' p @ [(h, ''Run: '' @ run, ''l'')])
      \<and> (\<exists>h. SavedAs (PlotRun Open run histName title x y seb q) =
            SavedAs q @
              [(GetOutputPath histName @ histName @ ''_Run_'' @ run @ ''.png'', [DrawnHist h ''HIST''])]))
   \<and> (\<not> loads Open histName run \<longrightarrow>
        cOverlay_' (OverlayRun Open run histName title x y p) = cOverlay_' p
      \<and> leg_' (OverlayRun Open run histName title x y p) = leg_' p
      \<and> last (cout (OverlayRun Open run histName title x y p)) \<in> {FileIssue run, HistogramIssue run}
      \<and> SavedAs (PlotRun Open run histName title x y seb q) = SavedAs q
      \<and> last (cout (PlotRun Open run histName title x y seb q)) \<in> {FileIssue run, HistogramIssue run})
   \<and> cOverlay_' (fold (\<lambda>run p. OverlayRun Open run histName title x y p) runs p) =
       cOverlay_' p @
         concat (map (\<lambda>run. cOverlay_' (OverlayRun Open run histName title x y (ResetCanvas p))) runs)
   \<and> leg_' (fold (\<lambda>run p. OverlayRun Open run histName title x y p) runs p) =
       leg_' p @
         concat (map (\<lambda>run. leg_' (OverlayRun Open run histName title x y (ResetCanvas p))) runs)"
proof (intro conjI impI)
  assume l: "loads Open histName run"
  from OverlayRun_draws [OF l, of title x y p]
  show "\<exists>h opt. cOverlay_' (OverlayRun Open run histName title x y p) = cOverlay_' p @ [DrawnHist h opt]
         \<and> leg_' (OverlayRun Open run histName title x y p) = leg_' p @ [(h, ''Run: '' @ run, ''l'')]"
    by blast
  from PlotRun_saves [OF l]
  show "\<exists>h. SavedAs (PlotRun Open run histName title x y seb q) =
            SavedAs q @
              [(GetOutputPath histName @ histName @ ''_Run_'' @ run @ ''.png'', [DrawnHist h ''HIST''])]" .
next
  assume n: "\<not> loads Open histName run"
  show "cOverlay_' (OverlayRun Open run histName title x y p) = cOverlay_' p"
    and "leg_' (OverlayRun Open run histName title x y p) = leg_' p"
    and "SavedAs (PlotRun Open run histName title x y seb q) = SavedAs q"
    using n by (simp_all add: OverlayRun_skip PlotRun_skip)
  from OverlayRun_skip(3) [OF n, of title x y p]
  show "last (cout (OverlayRun Open run histName title x y p)) \<in> {FileIssue run, HistogramIssue run}"
    by auto
  from PlotRun_skip(2) [OF n, of title x y seb q]
  show "last (cout (PlotRun Open run histName title x y seb q)) \<in> {FileIssue run, HistogramIssue run}"
    by auto
next
  show "cOverlay_' (fold (\<lambda>run p. OverlayRun Open run histName title x y p) runs p) =
       cOverlay_' p @
         concat (map (\<lambda>run. cOverlay_' (OverlayRun Open run histName title x y (ResetCanvas p))) runs)"
    and "leg_' (fold (\<lambda>run p. OverlayRun Open run histName title x y p) runs p) =
       leg_' p @
         concat (map (\<lambda>run. leg_' (OverlayRun Open run histName title x y (ResetCanvas p))) runs)"
    using loop_alone [of Open histName title x y runs p] by simp_all
qed

theorem run_contributes_iff_it_loads_witness:
  "loads example_Open ''hClusterECore'' ''21813''
   \<and> (\<exists>h opt. cOverlay_' (OverlayRun example_Open ''21813'' ''hClusterECore'' ''ECore'' ''E'' ''Counts''
                    (OverlayPlotter_new True OverlayPlotter_runDataMap)) = [DrawnHist h opt]
         \<and> leg_' (OverlayRun example_Open ''21813'' ''hClusterECore'' ''ECore'' ''E'' ''Counts''
                    (OverlayPlotter_new True OverlayPlotter_runDataMap)) = [(h, ''Run: 21813'', ''l'')])
   \<and> \<not> loads example_Open ''hClusterECore'' ''21599''
   \<and> cOverlay_' (OverlayRun example_Open ''21599'' ''hClusterECore'' ''ECore'' ''E'' ''Counts''
                    (OverlayPlotter_new True OverlayPlotter_runDataMap)) = []
   \<and> leg_' (OverlayRun example_Open ''21599'' ''hClusterECore'' ''ECore'' ''E'' ''Counts''
                    (OverlayPlotter_new True OverlayPlotter_runDataMap)) = []
   \<and> SavedAs (PlotRun example_Open ''21599'' ''hClusterECore'' ''ECore'' ''E'' ''Counts'' 8
                    (SinglePlotter_new True False 0 [])) = []"
proof -
  define p where "p = OverlayPlotter_new True OverlayPlotter_runDataMap"
  define q where "q = SinglePlotter_new True False 0 []"
  have empty: "cOverlay_' p = []" "leg_' p = []" "SavedAs q = []"
    by (simp_all add: p_def q_def OverlayPlotter_new_def SinglePlotter_new_def)
  note good = run_contributes_iff_it_loads [of example_Open "''hClusterECore''" "''21813''" "''ECore''" "''E''" "''Counts''" p 8 q "[]"]
  note bad = run_contributes_iff_it_loads [of example_Open "''hClusterECore''" "''21599''" "''ECore''" "''E''" "''Counts''" p 8 q "[]"]
  from good example_loads(1)
  have 1: "\<exists>h opt. cOverlay_' (OverlayRun example_Open ''21813'' ''hClusterECore'' ''ECore'' ''E'' ''Counts'' p)
              = [DrawnHist h opt]
         \<and> leg_' (OverlayRun example_Open ''21813'' ''hClusterECore'' ''ECore'' ''E'' ''Counts'' p)
              = [(h, ''Run: 21813'', ''l'')]"
    by (simp add: empty)
  from bad example_loads(4)
  have 2: "cOverlay_' (OverlayRun example_Open ''21599'' ''hClusterECore'' ''ECore'' ''E'' ''Counts'' p) = []"
    and 3: "leg_' (OverlayRun example_Open ''21599'' ''hClusterECore'' ''ECore'' ''E'' ''Counts'' p) = []"
    and 4: "SavedAs (PlotRun example_Open ''21599'' ''hClusterECore'' ''ECore'' ''E'' ''Counts'' 8 q) = []"
    by (simp_all add: empty)
  show ?thesis
    unfolding p_def [symmetric] q_def [symmetric]
    by (intro conjI) (rule example_loads(1), rule 1, rule example_loads(4), rule 2, rule 3, rule 4)
qed

lemma OverlayRun_processed:
  "processed_runs (cout (OverlayRun Open run histName title x y p)) = processed_runs (cout p) @ [run]"
proof -
  have app: "processed_runs (ms @ ns) = processed_runs ms @ processed_runs ns" for ms ns
    by (induction ms rule: processed_runs.induct) simp_all
  show ?thesis
    by (simp add: OverlayRun_def Let_def app split: option.splits)
qed

lemma loop_processed:
  "processed_runs (cout (fold (\<lambda>run p. OverlayRun Open run histName title x y p) runs p)) =
     processed_runs (cout p) @ runs"
  by (induction runs arbitrary: p) (simp_all add: OverlayRun_processed)

lemma example_iteration_runs:
  "map fst example_iteration =
    [''21889'', ''21518'', ''22982'', ''22949'', ''22951'', ''22950'', ''22979'', ''21891'',
     ''21598'', ''21599'', ''21520'', ''21615'', ''21796'', ''21813'']"
  by (simp add: example_iteration_def OverlayPlotter_runDataMap_def)

lemma example_iteration_enumerates:
  "distinct (map fst example_iteration) \<and> set example_iteration = set OverlayPlotter_runDataMap"
proof
  show "distinct (map fst example_iteration)"
    unfolding example_iteration_runs by simp
  have "set example_iteration \<subseteq> set OverlayPlotter_runDataMap"
    by (simp add: example_iteration_def OverlayPlotter_runDataMap_def)
  moreover have "set OverlayPlotter_runDataMap \<subseteq> set example_iteration"
    by (simp add: example_iteration_def OverlayPlotter_runDataMap_def)
  ultimately show "set example_iteration = set OverlayPlotter_runDataMap"
    by (rule equalityI)
qed

lemma example_loads_all:
  "filter (loads example_Open ''hClusterECore'')
     [''21889'', ''21518'', ''22982'', ''22949'', ''22951'', ''22950'', ''22979'', ''21891'',
      ''21598'', ''21599'', ''21520'', ''21615'', ''21796'', ''21813''] = [''21615'', ''21813'']"
  "filter (loads example_Open ''hClusterECore'') (map fst OverlayPlotter_runDataMap) =
     [''21813'', ''21615'']"
  by (simp_all add: loads_def example_Open_def qa_root_def OverlayPlotter_runDataMap_def)

text \<open>
  Claim C5: the runs are processed in the configured list order, and the legend follows
  it: with the configured order \<open>A, B, C\<close> the legend entries are in the order
  \<open>A, B, C\<close>, restricted to the runs that load.

  The configured order is the order of the run table. The constructor fills the run
  list from an iteration over the \<^verbatim>\<open>std::unordered_map\<close>, which keeps no order. With the
  enumeration above and the example store (of the table's runs, 21813 and 21615 load)
  the legend is \<open>Run: 21615\<close>, \<open>Run: 21813\<close>; the order of the table gives
  \<open>Run: 21813\<close>, \<open>Run: 21615\<close>.
\<close>

theorem legend_not_in_table_order:
  "distinct (map fst example_iteration)
   \<and> set example_iteration = set OverlayPlotter_runDataMap
   \<and> map (fst \<circ> snd)
       (leg_' (Overlay example_Open ''hClusterECore'' ''ECore'' ''E'' ''Counts''
          (OverlayPlotter_new True example_iteration))) = [''Run: 21615'', ''Run: 21813'']
   \<and> map (\<lambda>run. ''Run: '' @ run)
       (filter (loads example_Open ''hClusterECore'') (map fst OverlayPlotter_runDataMap)) =
     [''Run: 21813'', ''Run: 21615'']"
proof -
  have "map (fst \<circ> snd)
       (leg_' (Overlay example_Open ''hClusterECore'' ''ECore'' ''E'' ''Counts''
          (OverlayPlotter_new True example_iteration))) = [''Run: 21615'', ''Run: 21813'']"
    unfolding Overlay_labels runNumbers_new example_iteration_runs example_loads_all by simp
  moreover have "map (\<lambda>run. ''Run: '' @ run)
       (filter (loads example_Open ''hClusterECore'') (map fst OverlayPlotter_runDataMap)) =
     [''Run: 21813'', ''Run: 21615'']"
    unfolding example_loads_all by simp
  ultimately show ?thesis
    using example_iteration_enumerates by (intro conjI) (erule conjunct1, erule conjunct2)
qed

text \<open>
  Claim C5, amended: the runs are processed in the order of the run list
  \<open>runNumbers_'\<close>, which is the order in which the \<^verbatim>\<open>std::unordered_map\<close> enumerates the
  run table and need not be the order in which the table is written; the legend follows
  the run list: its entries are the labels of the runs that load, in the order of the
  list, whichever runs fail.
\<close>

theorem legend_in_enumeration_order:
  "processed_runs (cout (Overlay Open histName title x y (OverlayPlotter_new normalize' iteration))) =
     map fst iteration
   \<and> map (fst \<circ> snd) (leg_' (Overlay Open histName title x y (OverlayPlotter_new normalize' iteration))) =
       map (\<lambda>run. ''Run: '' @ run) (filter (loads Open histName) (map fst iteration))
   \<and> processed_runs (cout (Overlay Open histName title x y p)) = processed_runs (cout p) @ runNumbers_' p
   \<and> map (fst \<circ> snd) (leg_' (Overlay Open histName title x y p)) =
       map (\<lambda>run. ''Run: '' @ run) (filter (loads Open histName) (runNumbers_' p))"
proof -
  have c: "cout (OverlayPlotter_new n it) = []" for n it
    by (simp add: OverlayPlotter_new_def)
  have p: "processed_runs (cout (Overlay Open histName title x y q)) =
      processed_runs (cout q) @ runNumbers_' q" for q
    by (simp add: Overlay_def Let_def loop_processed ResetCanvas_def)
  show ?thesis
    by (simp add: Overlay_labels p c)
qed

theorem legend_in_enumeration_order_witness:
  "processed_runs (cout (Overlay example_Open ''hClusterECore'' ''ECore'' ''E'' ''Counts''
        (OverlayPlotter_new True example_iteration))) =
     [''21889'', ''21518'', ''22982'', ''22949'', ''22951'', ''22950'', ''22979'', ''21891'',
      ''21598'', ''21599'', ''21520'', ''21615'', ''21796'', ''21813'']
   \<and> map (fst \<circ> snd)
       (leg_' (Overlay example_Open ''hClusterECore'' ''ECore'' ''E'' ''Counts''
          (OverlayPlotter_new True example_iteration))) = [''Run: 21615'', ''Run: 21813'']"
proof -
  note inst = legend_in_enumeration_order [of example_Open "''hClusterECore''" "''ECore''" "''E''"
      "''Counts''" True example_iteration]
  from inst [THEN conjunct1]
  have "processed_runs (cout (Overlay example_Open ''hClusterECore'' ''ECore'' ''E'' ''Counts''
        (OverlayPlotter_new True example_iteration))) = map fst example_iteration" .
  moreover from inst [THEN conjunct2, THEN conjunct1] have "map (fst \<circ> snd)
       (leg_' (Overlay example_Open ''hClusterECore'' ''ECore'' ''E'' ''Counts''
          (OverlayPlotter_new True example_iteration))) =
     map (\<lambda>run. ''Run: '' @ run)
       (filter (loads example_Open ''hClusterECore'') (map fst example_iteration))" .
  ultimately show ?thesis
    unfolding example_iteration_runs example_loads_all by simp
qed

lemma options_first_rest:
  assumes "distinct (first # rest)"
  shows "map (\<lambda>run. if run = first then ''HIST'' else ''HIST SAME'') (filter P (first # rest)) =
         (if P first then [''HIST''] else []) @ map (\<lambda>run. ''HIST SAME'') (filter P rest)"
proof -
  have "map (\<lambda>run. if run = first then ''HIST'' else ''HIST SAME'') (filter P rest) =
        map (\<lambda>run. ''HIST SAME'') (filter P rest)"
    using assms by (intro map_cong) auto
  then show ?thesis
    by simp
qed

text \<open>
  Claim C7: in an overlay session the first run of the run list is drawn as a fresh plot
  (\<^verbatim>\<open>HIST\<close>), every later run is drawn onto it (\<^verbatim>\<open>HIST SAME\<close>), and every run drawn adds
  one legend entry, labelled with its run number.

  The run numbers are the keys of a map, so they are distinct.
\<close>

theorem first_run_fresh_others_same:
  assumes "runNumbers_' p = first # rest" and "distinct (runNumbers_' p)"
  shows "draw_options (cOverlay_' (Overlay Open histName title x y p)) =
           (if loads Open histName first then [''HIST''] else []) @
           map (\<lambda>run. ''HIST SAME'') (filter (loads Open histName) rest)
    \<and> map (fst \<circ> snd) (leg_' (Overlay Open histName title x y p)) =
           map (\<lambda>run. ''Run: '' @ run) (filter (loads Open histName) (first # rest))
    \<and> (\<forall>run. loads Open histName run \<longrightarrow>
          (\<exists>h. cOverlay_' (OverlayRun Open run histName title x y p) =
                  cOverlay_' p @ [DrawnHist h (if run = first then ''HIST'' else ''HIST SAME'')]
              \<and> leg_' (OverlayRun Open run histName title x y p) =
                  leg_' p @ [(h, ''Run: '' @ run, ''l'')]))"
proof (intro conjI allI impI)
  show "draw_options (cOverlay_' (Overlay Open histName title x y p)) =
           (if loads Open histName first then [''HIST''] else []) @
           map (\<lambda>run. ''HIST SAME'') (filter (loads Open histName) rest)"
    using assms options_first_rest [of first rest "loads Open histName"]
    by (simp add: Overlay_options)
  show "map (fst \<circ> snd) (leg_' (Overlay Open histName title x y p)) =
           map (\<lambda>run. ''Run: '' @ run) (filter (loads Open histName) (first # rest))"
    using assms by (simp add: Overlay_labels)
next
  fix run
  assume "loads Open histName run"
  from OverlayRun_draws [OF this, of title x y p]
  show "\<exists>h. cOverlay_' (OverlayRun Open run histName title x y p) =
                  cOverlay_' p @ [DrawnHist h (if run = first then ''HIST'' else ''HIST SAME'')]
              \<and> leg_' (OverlayRun Open run histName title x y p) =
                  leg_' p @ [(h, ''Run: '' @ run, ''l'')]"
    using assms(1) by simp
qed

theorem first_run_fresh_others_same_witness:
  "draw_options (cOverlay_' (Overlay example_Open ''hClusterECore'' ''ECore'' ''E'' ''Counts''
        (OverlayPlotter_new True (take 3 OverlayPlotter_runDataMap)))) = [''HIST'', ''HIST SAME'']
   \<and> map (fst \<circ> snd) (leg_' (Overlay example_Open ''hClusterECore'' ''ECore'' ''E'' ''Counts''
        (OverlayPlotter_new True (take 3 OverlayPlotter_runDataMap)))) = [''Run: 21813'', ''Run: 21615'']"
proof -
  have r: "runNumbers_' (OverlayPlotter_new True (take 3 OverlayPlotter_runDataMap)) =
      ''21813'' # [''21796'', ''21615'']"
    by (simp add: OverlayPlotter_runDataMap_def)
  have d: "distinct (runNumbers_' (OverlayPlotter_new True (take 3 OverlayPlotter_runDataMap)))"
    unfolding r by simp
  from first_run_fresh_others_same [OF r d, of example_Open "''hClusterECore''" "''ECore''" "''E''" "''Counts''"]
  show ?thesis
    by (simp add: example_loads)
qed

text \<open>
  Claim C10: the fresh plot is for the first element of the run list, not for the first
  run that loads. When the first run of the list does not load, no histogram of the
  session is drawn with \<^verbatim>\<open>HIST\<close>: every run that loads is drawn with \<^verbatim>\<open>HIST SAME\<close>.
\<close>

theorem no_fresh_plot_when_first_run_fails:
  assumes "runNumbers_' p = first # rest" and "distinct (runNumbers_' p)"
    and "\<not> loads Open histName first"
  shows "draw_options (cOverlay_' (Overlay Open histName title x y p)) =
           map (\<lambda>run. ''HIST SAME'') (filter (loads Open histName) (runNumbers_' p))
    \<and> ''HIST'' \<notin> set (draw_options (cOverlay_' (Overlay Open histName title x y p)))
    \<and> (\<forall>run h opt. cOverlay_' (OverlayRun Open run histName title x y p) = cOverlay_' p @ [DrawnHist h opt]
          \<longrightarrow> (opt = ''HIST'') = (run = first))"
proof (intro conjI allI impI)
  show eq: "draw_options (cOverlay_' (Overlay Open histName title x y p)) =
           map (\<lambda>run. ''HIST SAME'') (filter (loads Open histName) (runNumbers_' p))"
    using assms options_first_rest [of first rest "loads Open histName"]
    by (simp add: Overlay_options)
  show "''HIST'' \<notin> set (draw_options (cOverlay_' (Overlay Open histName title x y p)))"
    unfolding eq by auto
next
  fix run h opt
  assume a: "cOverlay_' (OverlayRun Open run histName title x y p) = cOverlay_' p @ [DrawnHist h opt]"
  show "(opt = ''HIST'') = (run = first)"
  proof (cases "loads Open histName run")
    case True
    from OverlayRun_draws [OF True, of title x y p] a assms(1) show ?thesis
      by auto
  next
    case False
    with a show ?thesis
      by (simp add: OverlayRun_skip)
  qed
qed

theorem no_fresh_plot_when_first_run_fails_witness:
  "\<not> loads example_Open ''hClusterECore'' ''21796''
   \<and> draw_options (cOverlay_' (Overlay example_Open ''hClusterECore'' ''ECore'' ''E'' ''Counts''
        (OverlayPlotter_new True (drop 1 (take 3 OverlayPlotter_runDataMap))))) = [''HIST SAME'']
   \<and> ''HIST'' \<notin> set (draw_options (cOverlay_' (Overlay example_Open ''hClusterECore'' ''ECore'' ''E'' ''Counts''
        (OverlayPlotter_new True (drop 1 (take 3 OverlayPlotter_runDataMap))))))"
proof -
  have r: "runNumbers_' (OverlayPlotter_new True (drop 1 (take 3 OverlayPlotter_runDataMap))) =
      ''21796'' # [''21615'']"
    by (simp add: OverlayPlotter_runDataMap_def)
  have d: "distinct (runNumbers_' (OverlayPlotter_new True (drop 1 (take 3 OverlayPlotter_runDataMap))))"
    unfolding r by simp
  from no_fresh_plot_when_first_run_fails [OF r d example_loads(2), of "''ECore''" "''E''" "''Counts''"]
  show ?thesis
    by (simp add: OverlayPlotter_runDataMap_def example_loads)
qed

section \<open>Console input\<close>

lemma stdin_simps [simp]:
  "buffer (stdin chars) = chars" "\<not> eofbit (stdin chars)" "\<not> failbit (stdin chars)"
  "good (stdin chars)" "(stdin chars)\<lparr>buffer := rest, eofbit := False\<rparr> = stdin rest"
  by (simp_all add: stdin_def good_def)

lemma sentry_stdin:
  assumes "dropWhile isspace chars \<noteq> []"
  shows "sentry (stdin chars) = (True, stdin (dropWhile isspace chars))"
proof -
  have "(stdin chars)\<lparr>buffer := dropWhile isspace chars\<rparr> = stdin (dropWhile isspace chars)"
    by (simp add: stdin_def)
  then show ?thesis
    using assms by (simp add: sentry_def Let_def)
qed

lemma extract_string_word:
  assumes "\<forall>c \<in> set pre. isspace c" and "w \<noteq> []" and "\<forall>c \<in> set w. \<not> isspace c"
  shows "extract_string (stdin (pre @ w @ CHR 0x0A # rest)) response = (w, stdin (CHR 0x0A # rest))"
proof -
  have nl: "isspace (CHR 0x0A)"
    by (simp add: isspace_def)
  have "\<not> isspace (hd w)"
    using assms(2,3) by (cases w) auto
  then have d: "dropWhile isspace (pre @ w @ CHR 0x0A # rest) = w @ CHR 0x0A # rest"
    using assms(1,2) by (cases w) (simp_all add: dropWhile_append)
  have t: "takeWhile (\<lambda>c. \<not> isspace c) (w @ CHR 0x0A # rest) = w"
    using assms(3) nl by (simp add: takeWhile_append)
  have r: "dropWhile (\<lambda>c. \<not> isspace c) (w @ CHR 0x0A # rest) = CHR 0x0A # rest"
    using assms(3) nl by (simp add: dropWhile_append)
  have "sentry (stdin (pre @ w @ CHR 0x0A # rest)) = (True, stdin (w @ CHR 0x0A # rest))"
    using sentry_stdin [of "pre @ w @ CHR 0x0A # rest"] assms(2) by (simp add: d)
  then show ?thesis
    by (simp add: extract_string_def t r nl Let_def del: takeWhile_append dropWhile_append)
qed

lemma AskApplyCut_loop_reprompts:
  assumes "\<forall>w \<in> set ws. w \<noteq> [] \<and> (\<forall>c \<in> set w. \<not> isspace c) \<and> w \<noteq> ''yes'' \<and> w \<noteq> ''no''"
    and "answer = ''yes'' \<or> answer = ''no''"
    and "\<forall>c \<in> set pre. isspace c"
  shows "AskApplyCut_loop (stdin (pre @ concat (map (\<lambda>w. w @ [CHR 0x0A]) ws) @ answer @ CHR 0x0A # rest))
           response out =
         Some (answer = ''yes'', stdin (CHR 0x0A # rest), out @ replicate (length ws) InvalidResponse)"
  using assms
proof (induction ws arbitrary: pre response out)
  case Nil
  have a: "answer \<noteq> []" "\<forall>c \<in> set answer. \<not> isspace c"
    using Nil.prems(2) by (auto simp add: isspace_def)
  show ?case
    using Nil.prems(2) extract_string_word [OF Nil.prems(3) a, of rest response]
    by (subst AskApplyCut_loop.simps) auto
next
  case (Cons w ws)
  have w: "w \<noteq> []" "\<forall>c \<in> set w. \<not> isspace c" "w \<noteq> ''yes''" "w \<noteq> ''no''"
    using Cons.prems(1) by auto
  have rest: "\<forall>w \<in> set ws. w \<noteq> [] \<and> (\<forall>c \<in> set w. \<not> isspace c) \<and> w \<noteq> ''yes'' \<and> w \<noteq> ''no''"
    using Cons.prems(1) by auto
  have nl: "\<forall>c \<in> set [CHR 0x0A]. isspace c"
    by (simp add: isspace_def)
  note step = extract_string_word [OF Cons.prems(3) w(1,2),
      of "concat (map (\<lambda>w. w @ [CHR 0x0A]) ws) @ answer @ CHR 0x0A # rest" response]
  note ih = Cons.IH [OF rest Cons.prems(2) nl, of w "out @ [InvalidResponse]"]
  show ?case
    using step ih w(3,4)
    by (subst AskApplyCut_loop.simps) (simp add: replicate_append_same)
qed

lemma AskEnergyCutValue_reprompts:
  assumes "\<forall>l \<in> set ls. l \<noteq> [] \<and> \<not> isspace (hd l) \<and> CHR 0x0A \<notin> set l
             \<and> (\<forall>more. num_get (l @ CHR 0x0A # more) = None)"
    and "g \<noteq> []" and "\<not> isspace (hd g)"
    and "num_get (g @ CHR 0x0A # rest) = Some (v, CHR 0x0A # rest)"
  shows "AskEnergyCutValue num_get
           (stdin (concat (map (\<lambda>l. l @ [CHR 0x0A]) ls) @ g @ CHR 0x0A # rest)) out =
         Some (v, stdin (CHR 0x0A # rest),
               out @ concat (replicate (length ls) [EnterEnergyCut, InvalidEnergy]) @ [EnterEnergyCut])"
  using assms
proof (induction ls arbitrary: out)
  case Nil
  have "dropWhile isspace (g @ CHR 0x0A # rest) = g @ CHR 0x0A # rest"
    using Nil.prems(2,3) by (cases g) simp_all
  then have "sentry (stdin (g @ CHR 0x0A # rest)) = (True, stdin (g @ CHR 0x0A # rest))"
    using sentry_stdin [of "g @ CHR 0x0A # rest"] Nil.prems(2) by simp
  then show ?case
    using Nil.prems(4)
    by (subst AskEnergyCutValue.simps) (simp add: extract_double_def stdin_def)
next
  case (Cons l ls)
  let ?more = "concat (map (\<lambda>l. l @ [CHR 0x0A]) ls) @ g @ CHR 0x0A # rest"
  have l: "l \<noteq> []" "\<not> isspace (hd l)" "CHR 0x0A \<notin> set l" "num_get (l @ CHR 0x0A # ?more) = None"
    using Cons.prems(1) by auto
  have rest: "\<forall>l \<in> set ls. l \<noteq> [] \<and> \<not> isspace (hd l) \<and> CHR 0x0A \<notin> set l
             \<and> (\<forall>more. num_get (l @ CHR 0x0A # more) = None)"
    using Cons.prems(1) by auto
  have "dropWhile isspace (l @ CHR 0x0A # ?more) = l @ CHR 0x0A # ?more"
    using l(1,2) by (cases l) simp_all
  then have s: "sentry (stdin (l @ CHR 0x0A # ?more)) = (True, stdin (l @ CHR 0x0A # ?more))"
    using sentry_stdin [of "l @ CHR 0x0A # ?more"] l(1) by simp
  have e: "extract_double num_get (stdin (l @ CHR 0x0A # ?more)) =
      (None, (stdin (l @ CHR 0x0A # ?more))\<lparr>failbit := True\<rparr>)"
    by (simp add: extract_double_def s l(4))
  have d: "dropWhile (\<lambda>c. c \<noteq> CHR 0x0A) (l @ CHR 0x0A # ?more) = CHR 0x0A # ?more"
    using l(3) by (simp add: dropWhile_append)
  have i: "ignore_line (clear ((stdin (l @ CHR 0x0A # ?more))\<lparr>failbit := True\<rparr>)) = stdin ?more"
    using d by (simp add: ignore_line_def clear_def good_def stdin_def Let_def del: dropWhile_append)
  note ih = Cons.IH [OF rest Cons.prems(2,3,4), of "out @ [EnterEnergyCut, InvalidEnergy]"]
  show ?case
    using e i ih
    by (subst AskEnergyCutValue.simps) simp
qed

lemma AskHistogramToCut_loop_result:
  "AskHistogramToCut_loop ss histogramsToCut out =
     (histogramsToCut @
        map (\<lambda>choice. options ! (nat (sint choice) - 1))
          (filter (\<lambda>choice. 1 \<le> sint choice \<and> sint choice \<le> 5) (extracted_ints ss)),
      out @ map InvalidChoice
          (filter (\<lambda>choice. \<not> (1 \<le> sint choice \<and> sint choice \<le> 5)) (extracted_ints ss)))"
proof (induction ss histogramsToCut out rule: AskHistogramToCut_loop.induct)
  case (1 ss histogramsToCut out)
  show ?case
  proof (cases "extract_int ss")
    case (Pair r ss1)
    show ?thesis
    proof (cases r)
      case None
      with Pair show ?thesis
        by (subst AskHistogramToCut_loop.simps, subst (1 2) extracted_ints.simps) simp
    next
      case (Some choice)
      with Pair "1.IH" show ?thesis
        by (subst AskHistogramToCut_loop.simps, subst (1 2) extracted_ints.simps) auto
    qed
  qed
qed

text \<open>
  At the end of the input neither loop returns: every further extraction fails, and the
  loop asks again forever.
\<close>

lemma AskApplyCut_loop_after_failure:
  assumes "AskApplyCut_loop cin response out = Some r"
  shows "\<not> (failbit cin \<and> response \<noteq> ''yes'' \<and> response \<noteq> ''no'')"
proof (rule AskApplyCut_loop.raw_induct
    [where P = "\<lambda>cin response out r. \<not> (failbit cin \<and> response \<noteq> ''yes'' \<and> response \<noteq> ''no'')",
      OF _ assms])
  fix loop cin response out r
  assume ih: "\<And>cin response out r. loop cin response out = Some r \<Longrightarrow>
      \<not> (failbit cin \<and> response \<noteq> ''yes'' \<and> response \<noteq> ''no'')"
    and body: "(case extract_string cin response of
      (response1, cin1) \<Rightarrow>
        if response1 = ''yes'' then Some (True, cin1, out)
        else if response1 = ''no'' then Some (False, cin1, out)
             else loop cin1 response1 (out @ [InvalidResponse])) = Some r"
  show "\<not> (failbit cin \<and> response \<noteq> ''yes'' \<and> response \<noteq> ''no'')"
  proof
    assume a: "failbit cin \<and> response \<noteq> ''yes'' \<and> response \<noteq> ''no''"
    then have "extract_string cin response = (response, cin\<lparr>failbit := True\<rparr>)"
      by (simp add: extract_string_def sentry_def good_def)
    with a body have "loop (cin\<lparr>failbit := True\<rparr>) response (out @ [InvalidResponse]) = Some r"
      by simp
    from ih [OF this] a show False
      by simp
  qed
qed

lemma AskEnergyCutValue_at_end_of_input:
  assumes "AskEnergyCutValue num_get cin out = Some r"
  shows "buffer cin \<noteq> []"
proof (rule AskEnergyCutValue.raw_induct
    [where P = "\<lambda>num_get cin out r. buffer cin \<noteq> []", OF _ assms])
  fix ask num_get cin out r
  assume ih: "\<And>num_get cin out r. ask num_get cin out = Some r \<Longrightarrow> buffer cin \<noteq> []"
    and body: "(case extract_double num_get cin of
      (None, cin1) \<Rightarrow> ask num_get (ignore_line (clear cin1)) (out @ [EnterEnergyCut, InvalidEnergy])
      | (Some energy, cin1) \<Rightarrow> Some (energy, cin1, out @ [EnterEnergyCut])) = Some r"
  show "buffer cin \<noteq> []"
  proof
    assume a: "buffer cin = []"
    have e: "fst (extract_double num_get cin) = None \<and> buffer (snd (extract_double num_get cin)) = []"
      using a by (simp add: extract_double_def sentry_def Let_def)
    then have "buffer (ignore_line (clear (snd (extract_double num_get cin)))) = []"
      by (simp add: ignore_line_def clear_def good_def Let_def)
    moreover from e body
    have "ask num_get (ignore_line (clear (snd (extract_double num_get cin))))
            (out @ [EnterEnergyCut, InvalidEnergy]) = Some r"
      by (cases "extract_double num_get cin") simp
    ultimately show False
      using ih by blast
  qed
qed

text \<open>
  Claim C8: every malformed input (a cut value that is no number, a menu index out of
  range, a response other than yes or no) is rejected and asked for again until a valid
  value is entered.

  The histogram selection does not ask again. With the line \<^verbatim>\<open>7\<close> typed (after the rest of
  the line of the answer before it), \<^verbatim>\<open>AskHistogramToCut\<close> prints the diagnostic for \<open>7\<close>
  and returns the empty selection; the valid \<open>1\<close> on the next line is never read by it.
\<close>

theorem menu_index_is_not_asked_again:
  "AskHistogramToCut (stdin (CHR 0x0A # ''7'' @ CHR 0x0A # ''1'' @ [CHR 0x0A])) [] =
     ([], stdin (''1'' @ [CHR 0x0A]),
      [WhichHistograms, MenuItem 1 ''hClusterChi'', MenuItem 2 ''hClusterPt'',
       MenuItem 3 ''hClusterECore'', MenuItem 4 ''hTotalCaloE'', MenuItem 5 ''hTotalMBD'',
       InvalidChoice 7])"
  by code_simp

text \<open>
  Claim C8, amended: a response other than yes or no, and a cut value that the
  conversion does not accept, are rejected and asked for again, as often as it takes,
  until a valid one is entered; the value returned is the valid one. The histogram
  selection reads one line and does not ask again: the selection is the histograms of
  the in-range indices among the integers read from the line (up to the first token that
  is no integer), each index out of range gets a diagnostic, and the selection may be
  empty.
\<close>

theorem console_input_validation:
  assumes "\<forall>w \<in> set ws. w \<noteq> [] \<and> (\<forall>c \<in> set w. \<not> isspace c) \<and> w \<noteq> ''yes'' \<and> w \<noteq> ''no''"
    and "answer = ''yes'' \<or> answer = ''no''"
    and "\<forall>l \<in> set ls. l \<noteq> [] \<and> \<not> isspace (hd l) \<and> CHR 0x0A \<notin> set l
             \<and> (\<forall>more. num_get (l @ CHR 0x0A # more) = None)"
    and "g \<noteq> []" and "\<not> isspace (hd g)"
    and "num_get (g @ CHR 0x0A # rest') = Some (v, CHR 0x0A # rest')"
  shows "AskApplyCut (stdin (concat (map (\<lambda>w. w @ [CHR 0x0A]) ws) @ answer @ CHR 0x0A # rest)) out =
           Some (answer = ''yes'', stdin (CHR 0x0A # rest),
                 out @ ApplyCutPrompt # replicate (length ws) InvalidResponse)
    \<and> AskEnergyCutValue num_get
           (stdin (concat (map (\<lambda>l. l @ [CHR 0x0A]) ls) @ g @ CHR 0x0A # rest')) out =
         Some (v, stdin (CHR 0x0A # rest'),
               out @ concat (replicate (length ls) [EnterEnergyCut, InvalidEnergy]) @ [EnterEnergyCut])
    \<and> AskHistogramToCut cin out =
         (map (\<lambda>choice. options ! (nat (sint choice) - 1))
            (filter (\<lambda>choice. 1 \<le> sint choice \<and> sint choice \<le> 5)
               (extracted_ints (stdin (fst (getline (snd (getline cin [])) (fst (getline cin []))))))),
          snd (getline (snd (getline cin [])) (fst (getline cin []))),
          out @ [WhichHistograms] @ map (\<lambda>i. MenuItem (i + 1) (options ! i)) [0..<5] @
            map InvalidChoice
              (filter (\<lambda>choice. \<not> (1 \<le> sint choice \<and> sint choice \<le> 5))
                 (extracted_ints (stdin (fst (getline (snd (getline cin [])) (fst (getline cin []))))))))"
proof (intro conjI)
  show "AskApplyCut (stdin (concat (map (\<lambda>w. w @ [CHR 0x0A]) ws) @ answer @ CHR 0x0A # rest)) out =
           Some (answer = ''yes'', stdin (CHR 0x0A # rest),
                 out @ ApplyCutPrompt # replicate (length ws) InvalidResponse)"
    using AskApplyCut_loop_reprompts [OF assms(1,2), of "[]" rest "[]" "out @ [ApplyCutPrompt]"]
    by (simp add: AskApplyCut_def)
  show "AskEnergyCutValue num_get
           (stdin (concat (map (\<lambda>l. l @ [CHR 0x0A]) ls) @ g @ CHR 0x0A # rest')) out =
         Some (v, stdin (CHR 0x0A # rest'),
               out @ concat (replicate (length ls) [EnterEnergyCut, InvalidEnergy]) @ [EnterEnergyCut])"
    by (rule AskEnergyCutValue_reprompts [OF assms(3,4,5,6)])
  show "AskHistogramToCut cin out =
         (map (\<lambda>choice. options ! (nat (sint choice) - 1))
            (filter (\<lambda>choice. 1 \<le> sint choice \<and> sint choice \<le> 5)
               (extracted_ints (stdin (fst (getline (snd (getline cin [])) (fst (getline cin []))))))),
          snd (getline (snd (getline cin [])) (fst (getline cin []))),
          out @ [WhichHistograms] @ map (\<lambda>i. MenuItem (i + 1) (options ! i)) [0..<5] @
            map InvalidChoice
              (filter (\<lambda>choice. \<not> (1 \<le> sint choice \<and> sint choice \<le> 5))
                 (extracted_ints (stdin (fst (getline (snd (getline cin [])) (fst (getline cin []))))))))"
    by (simp add: AskHistogramToCut_def Let_def split_beta AskHistogramToCut_loop_result
        stdin_def [symmetric])
qed

theorem console_input_validation_witness:
  "AskApplyCut (stdin (''maybe'' @ CHR 0x0A # ''yes'' @ [CHR 0x0A])) [] =
     Some (True, stdin [CHR 0x0A], [ApplyCutPrompt, InvalidResponse])
   \<and> AskEnergyCutValue example_num_get (stdin (''abc'' @ CHR 0x0A # ''25'' @ [CHR 0x0A])) [] =
     Some (25, stdin [CHR 0x0A], [EnterEnergyCut, InvalidEnergy, EnterEnergyCut])
   \<and> AskHistogramToCut (stdin (CHR 0x0A # ''7 2 x 3'' @ [CHR 0x0A])) [] =
     ([''hClusterPt''], stdin [],
      [WhichHistograms, MenuItem 1 ''hClusterChi'', MenuItem 2 ''hClusterPt'',
       MenuItem 3 ''hClusterECore'', MenuItem 4 ''hTotalCaloE'', MenuItem 5 ''hTotalMBD'',
       InvalidChoice 7])"
proof -
  have 1: "\<forall>w \<in> set [''maybe'']. w \<noteq> [] \<and> (\<forall>c \<in> set w. \<not> isspace c) \<and> w \<noteq> ''yes'' \<and> w \<noteq> ''no''"
    by (simp add: isspace_def)
  have 2: "''yes'' = ''yes'' \<or> ''yes'' = ''no''"
    by simp
  have 3: "\<forall>l \<in> set [''abc'']. l \<noteq> [] \<and> \<not> isspace (hd l) \<and> CHR 0x0A \<notin> set l
             \<and> (\<forall>more. example_num_get (l @ CHR 0x0A # more) = None)"
    by (simp add: isspace_def example_num_get_def isdigit_def)
  have 4: "''25'' \<noteq> []" "\<not> isspace (hd ''25'')"
    by (simp_all add: isspace_def)
  have 5: "example_num_get (''25'' @ CHR 0x0A # []) = Some (25, CHR 0x0A # [])"
    by (simp add: example_num_get_def isdigit_def decimal_def)
  have ints: "extracted_ints (stdin ''7 2 x 3'') = [7, 2]"
    by code_simp
  have lines: "getline (stdin ''\<newline>7 2 x 3\<newline>'') [] = ([], stdin ''7 2 x 3\<newline>'')"
    "getline (stdin ''7 2 x 3\<newline>'') [] = (''7 2 x 3'', stdin [])"
    by (simp_all add: getline_def Let_def stdin_def good_def)
  from console_input_validation [OF 1 2 3 4 5, of "[]" "[]" "stdin (CHR 0x0A # ''7 2 x 3'' @ [CHR 0x0A])"]
  show ?thesis
    by (simp add: lines ints options_def upt_conv_Cons)
qed

end
